theory Spec2Isabelle
  imports Complex_Main "HOL-Library.AList"
begin

section \<open>JavaScript strings\<close>

text \<open>
  A JavaScript string is modelled as a \<^typ>\<open>string\<close>: a list of 8-bit characters, read as
  the code points U+0000 to U+00FF. On this range the whitespace class of \<^verbatim>\<open>\s\<close> and of
  \<^verbatim>\<open>String.prototype.trim\<close> is TAB, LF, VT, FF, CR, SPACE and NBSP; the line terminators
  that \<^verbatim>\<open>.\<close> refuses are LF and CR; \<^verbatim>\<open>toLowerCase\<close> maps A to Z and the upper-case
  letters U+00C0 to U+00DE (without the multiplication sign U+00D7) to the character 32 places up.
\<close>

definition is_space :: "char \<Rightarrow> bool" where
  "is_space c =
     (c \<in> set [CHR 0x09, CHR 0x0A, CHR 0x0B, CHR 0x0C, CHR 0x0D, CHR 0x20, CHR 0xA0])"

definition is_line_terminator :: "char \<Rightarrow> bool" where
  "is_line_terminator c = (c \<in> set [CHR 0x0A, CHR 0x0D])"

definition is_digit :: "char \<Rightarrow> bool" where
  "is_digit c = (c \<in> set ''0123456789'')"

definition is_alpha :: "char \<Rightarrow> bool" where
  "is_alpha c =
     (c \<in> set ''abcdefghijklmnopqrstuvwxyzABCDEFGHIJKLMNOPQRSTUVWXYZ'')"

definition toLowerCase_char :: "char \<Rightarrow> char" where
  "toLowerCase_char c =
     (let n = (of_char c :: nat) in
      if (65 \<le> n \<and> n \<le> 90) \<or> (192 \<le> n \<and> n \<le> 222 \<and> n \<noteq> 215)
      then char_of (n + 32) else c)"

definition toLowerCase :: "string \<Rightarrow> string" where
  "toLowerCase s = map toLowerCase_char s"

definition trim :: "string \<Rightarrow> string" where
  "trim s = rev (dropWhile is_space (rev (dropWhile is_space s)))"

fun startsWith :: "string \<Rightarrow> string \<Rightarrow> bool" where
  "startsWith s [] = True"
| "startsWith [] (p # ps) = False"
| "startsWith (x # xs) (p # ps) = (x = p \<and> startsWith xs ps)"

text \<open>\<^verbatim>\<open>s.includes(k)\<close>: \<open>k\<close> occurs in \<open>s\<close> as a contiguous substring.\<close>

fun includes_js :: "string \<Rightarrow> string \<Rightarrow> bool" where
  "includes_js [] k = (k = [])"
| "includes_js (x # xs) k = (startsWith (x # xs) k \<or> includes_js xs k)"

section \<open>Regular expressions\<close>

text \<open>
  The regular expressions of the program use literals, character classes, sequence, alternation,
  greedy repetition and capture groups. \<open>rx_run r s c\<close> lists every way \<open>r\<close> can match
  a prefix of \<open>s\<close>, as the rest of the input and the captures, in the order in which a
  backtracking matcher tries them: the head of the list is the match JavaScript reports at this
  position. An iteration of a star that consumes nothing is dropped, as in JavaScript.
\<close>

type_synonym caps = "nat \<rightharpoonup> string"

datatype rx =
    Eps
  | Cls "char \<Rightarrow> bool"
  | Seq rx rx
  | Alt rx rx
  | Star rx
  | Grp nat rx

function rx_run :: "rx \<Rightarrow> string \<Rightarrow> caps \<Rightarrow> (string \<times> caps) list" where
  "rx_run Eps s c = [(s, c)]"
| "rx_run (Cls p) s c = (case s of [] \<Rightarrow> [] | x # xs \<Rightarrow> if p x then [(xs, c)] else [])"
| "rx_run (Seq a b) s c = concat (map (\<lambda>(s', c'). rx_run b s' c') (rx_run a s c))"
| "rx_run (Alt a b) s c = rx_run a s c @ rx_run b s c"
| "rx_run (Star a) s c =
     concat (map (\<lambda>(s', c'). if length s' < length s then rx_run (Star a) s' c' else [])
                 (rx_run a s c)) @ [(s, c)]"
| "rx_run (Grp n a) s c =
     map (\<lambda>(s', c'). (s', c'(n \<mapsto> take (length s - length s') s))) (rx_run a s c)"
  by pat_completeness auto
termination
  by (relation "inv_image (less_than <*lex*> less_than) (\<lambda>(r, s, c). (size r, length s))")
     auto

declare rx_run.simps(5) [simp del]

text \<open>
  An unanchored search tries the start positions from left to right; the result is the text
  before the match, the match, the text after it and the captures.
\<close>

fun rx_search :: "rx \<Rightarrow> string \<Rightarrow> string \<Rightarrow> (string \<times> string \<times> string \<times> caps) option" where
  "rx_search r pre s =
     (case rx_run r s Map.empty of
        (s', c) # _ \<Rightarrow> Some (pre, take (length s - length s') s, s', c)
      | [] \<Rightarrow> (case s of [] \<Rightarrow> None | x # xs \<Rightarrow> rx_search r (pre @ [x]) xs))"

declare rx_search.simps [simp del]

lemma rx_run_suffix:
  "(s', c') \<in> set (rx_run r s c) \<Longrightarrow> \<exists>p. s = p @ s'"
proof (induction r s c arbitrary: s' c' rule: rx_run.induct)
  case (1 s c)
  then show ?case by simp
next
  case (2 p s c)
  then show ?case by (cases s) (auto split: if_splits)
next
  case (3 a b s c)
  from "3.prems" obtain s1 c1 where a: "(s1, c1) \<in> set (rx_run a s c)"
    and b: "(s', c') \<in> set (rx_run b s1 c1)" by auto
  from "3.IH"(1)[OF a] obtain p1 where "s = p1 @ s1" by blast
  moreover from "3.IH"(2)[OF a _ b] obtain p2 where "s1 = p2 @ s'" by auto
  ultimately show ?case by auto
next
  case (4 a b s c)
  then show ?case by auto
next
  case (5 a s c)
  from "5.prems" have
    "(s', c') \<in> set (concat (map (\<lambda>(s', c'). if length s' < length s
        then rx_run (Star a) s' c' else []) (rx_run a s c)) @ [(s, c)])"
    by (subst (asm) rx_run.simps(5)) simp
  then consider
    (iter) s1 c1 where "(s1, c1) \<in> set (rx_run a s c)" "length s1 < length s"
        "(s', c') \<in> set (rx_run (Star a) s1 c1)"
    | (stop) "s' = s"
    by (auto split: if_splits)
  then show ?case
  proof cases
    case iter
    from "5.IH"(1)[OF iter(1)] obtain p1 where "s = p1 @ s1" by blast
    moreover from "5.IH"(2)[OF iter(1) _ iter(2) iter(3)] obtain p2 where "s1 = p2 @ s'"
      by auto
    ultimately show ?thesis by auto
  next
    case stop
    then show ?thesis by simp
  qed
next
  case (6 n a s c)
  then show ?case by auto
qed

lemma rx_search_split:
  "rx_search r pre s = Some (pre', m, rest, c) \<Longrightarrow> pre' @ m @ rest = pre @ s"
proof (induction r pre s rule: rx_search.induct)
  case (1 r pre s)
  note unfolded = "1.prems"[unfolded rx_search.simps[of r pre s]]
  show ?case
  proof (cases "rx_run r s Map.empty")
    case Nil
    with unfolded obtain x xs where s: "s = x # xs"
      and rec: "rx_search r (pre @ [x]) xs = Some (pre', m, rest, c)"
      by (cases s) auto
    from "1.IH"[OF Nil s rec] s show ?thesis by simp
  next
    case (Cons a list)
    obtain s1 c1 where a: "a = (s1, c1)" by (cases a)
    with Cons unfolded have eq: "pre' = pre" "m = take (length s - length s1) s" "rest = s1"
      by auto
    from Cons a have "(s1, c1) \<in> set (rx_run r s Map.empty)" by simp
    from rx_run_suffix[OF this] obtain p where "s = p @ s1" by blast
    with eq show ?thesis by simp
  qed
qed

text \<open>
  \<^verbatim>\<open>s.match(/r/g)\<close> collects the matches from left to right, each search starting where the
  previous match ended (one character further after an empty match).
\<close>

function match_all :: "rx \<Rightarrow> string \<Rightarrow> string list" where
  "match_all r s =
     (case rx_search r [] s of
        None \<Rightarrow> []
      | Some (pre, m, rest, c) \<Rightarrow>
          if m = [] then m # (case rest of [] \<Rightarrow> [] | x # xs \<Rightarrow> match_all r xs)
          else m # match_all r rest)"
  by pat_completeness auto
termination
proof (relation "measure (\<lambda>(r, s). length s)")
  show "wf (measure (\<lambda>(r, s). length s))" by simp
next
  fix r s x2 pre y m ya rest c x21 x22
  assume "rx_search r [] s = Some x2" "(pre, y) = x2" "(m, ya) = y" "(rest, c) = ya"
    "m = []" "rest = x21 # x22"
  then have "rx_search r [] s = Some (pre, m, rest, c)" by simp
  from rx_search_split[OF this] \<open>rest = x21 # x22\<close>
  show "((r, x22), r, s) \<in> measure (\<lambda>(r, s). length s)" by auto
next
  fix r s x2 pre y m ya rest c
  assume "rx_search r [] s = Some x2" "(pre, y) = x2" "(m, ya) = y" "(rest, c) = ya"
    "m \<noteq> []"
  then have "rx_search r [] s = Some (pre, m, rest, c)" by simp
  from rx_search_split[OF this] \<open>m \<noteq> []\<close>
  show "((r, rest), r, s) \<in> measure (\<lambda>(r, s). length s)" by auto
qed

declare match_all.simps [simp del]

text \<open>\<^verbatim>\<open>s.replace(/r/g, rep)\<close> for a replacement text without \<^verbatim>\<open>$\<close> patterns.\<close>

function replace_all :: "rx \<Rightarrow> string \<Rightarrow> string \<Rightarrow> string" where
  "replace_all r rep s =
     (case rx_search r [] s of
        None \<Rightarrow> s
      | Some (pre, m, rest, c) \<Rightarrow>
          if m = [] then pre @ rep @ (case rest of [] \<Rightarrow> [] | x # xs \<Rightarrow> x # replace_all r rep xs)
          else pre @ rep @ replace_all r rep rest)"
  by pat_completeness auto
termination
proof (relation "measure (\<lambda>(r, rep, s). length s)")
  show "wf (measure (\<lambda>(r, rep, s). length s))" by simp
next
  fix r :: rx and rep s :: string and x2 pre y m ya rest c x21 x22
  assume "rx_search r [] s = Some x2" "(pre, y) = x2" "(m, ya) = y" "(rest, c) = ya"
    "m = []" "rest = x21 # x22"
  then have "rx_search r [] s = Some (pre, m, rest, c)" by simp
  from rx_search_split[OF this] \<open>rest = x21 # x22\<close>
  show "((r, rep, x22), r, rep, s) \<in> measure (\<lambda>(r, rep, s). length s)" by auto
next
  fix r :: rx and rep s :: string and x2 pre y m ya rest c
  assume "rx_search r [] s = Some x2" "(pre, y) = x2" "(m, ya) = y" "(rest, c) = ya"
    "m \<noteq> []"
  then have "rx_search r [] s = Some (pre, m, rest, c)" by simp
  from rx_search_split[OF this] \<open>m \<noteq> []\<close>
  show "((r, rep, rest), r, rep, s) \<in> measure (\<lambda>(r, rep, s). length s)" by auto
qed

declare replace_all.simps [simp del]

text \<open>\<^verbatim>\<open>s.replace(/r/, rep)\<close> without the global flag replaces the first match only.\<close>

definition replace_first :: "rx \<Rightarrow> string \<Rightarrow> string \<Rightarrow> string" where
  "replace_first r rep s =
     (case rx_search r [] s of None \<Rightarrow> s | Some (pre, m, rest, c) \<Rightarrow> pre @ rep @ rest)"

subsection \<open>Building blocks\<close>

definition chr :: "char \<Rightarrow> rx" where
  "chr c = Cls (\<lambda>x. x = c)"

text \<open>
  Under the \<^verbatim>\<open>i\<close> flag a literal character matches the characters with the same case
  folding; for the ASCII literals of this program these are its two cases.
\<close>

definition chr_ci :: "char \<Rightarrow> rx" where
  "chr_ci c = Cls (\<lambda>x. toLowerCase_char x = toLowerCase_char c)"

fun str :: "string \<Rightarrow> rx" where
  "str [] = Eps"
| "str (c # cs) = Seq (chr c) (str cs)"

fun str_ci :: "string \<Rightarrow> rx" where
  "str_ci [] = Eps"
| "str_ci (c # cs) = Seq (chr_ci c) (str_ci cs)"

fun alts :: "rx list \<Rightarrow> rx" where
  "alts [] = Cls (\<lambda>x. False)"
| "alts [r] = r"
| "alts (r # rs) = Alt r (alts rs)"

definition plus_rx :: "rx \<Rightarrow> rx" where
  "plus_rx r = Seq r (Star r)"

definition opt :: "rx \<Rightarrow> rx" where
  "opt r = Alt r Eps"

definition dot :: rx where
  "dot = Cls (\<lambda>x. \<not> is_line_terminator x)"

definition digit :: rx where
  "digit = Cls is_digit"

definition space :: rx where
  "space = Cls is_space"

fun seqs :: "rx list \<Rightarrow> rx" where
  "seqs [] = Eps"
| "seqs [r] = r"
| "seqs (r # rs) = Seq r (seqs rs)"

text \<open>\<open>rep_exact n r\<close> is \<^verbatim>\<open>r{n}\<close>, \<open>rep_upto n r\<close> is the greedy \<^verbatim>\<open>r{0,n}\<close>.\<close>

fun rep_exact :: "nat \<Rightarrow> rx \<Rightarrow> rx" where
  "rep_exact 0 r = Eps"
| "rep_exact (Suc n) r = Seq r (rep_exact n r)"

fun rep_upto :: "nat \<Rightarrow> rx \<Rightarrow> rx" where
  "rep_upto 0 r = Eps"
| "rep_upto (Suc n) r = opt (Seq r (rep_upto n r))"

definition rep_range :: "nat \<Rightarrow> nat \<Rightarrow> rx \<Rightarrow> rx" where
  "rep_range lo hi r = Seq (rep_exact lo r) (rep_upto (hi - lo) r)"

section \<open>JavaScript values, exceptions and the runtime\<close>

text \<open>
  \<open>JNum q\<close> is the finite number written \<open>q\<close> (the double next to it); the other numbers
  are \<open>JNaN\<close> and \<open>JInfinity\<close> with its sign. An object is the list of its properties in
  insertion order.
\<close>

datatype jsval =
    JUndefined
  | JNull
  | JBool bool
  | JNum rat
  | JNaN
  | JInfinity bool
  | JStr string
  | JRegExp string
  | JArr "jsval list"
  | JObj "(string \<times> jsval) list"

type_synonym obj = "(string \<times> jsval) list"

fun truthy :: "jsval \<Rightarrow> bool" where
  "truthy JUndefined = False"
| "truthy JNull = False"
| "truthy (JBool b) = b"
| "truthy (JNum q) = (q \<noteq> 0)"
| "truthy JNaN = False"
| "truthy (JStr s) = (s \<noteq> [])"
| "truthy v = True"

text \<open>\<^verbatim>\<open>a || b\<close>\<close>

definition js_or :: "jsval \<Rightarrow> jsval \<Rightarrow> jsval" where
  "js_or a b = (if truthy a then a else b)"

text \<open>
  Exceptions are values: the errors that the code of the program and the engine raise. An
  \<^verbatim>\<open>ApiError\<close> has its \<^verbatim>\<open>statusCode\<close> and its message; none of them has a property
  \<^verbatim>\<open>status\<close>.
\<close>

datatype exn =
    ApiError nat string
  | Error string
  | TypeError
  | SyntaxError

text \<open>
  Property reads. \<^verbatim>\<open>v.k\<close> raises a TypeError on \<^verbatim>\<open>null\<close> and \<^verbatim>\<open>undefined\<close>;
  \<^verbatim>\<open>v?.k\<close> yields \<^verbatim>\<open>undefined\<close> there. The program reads no property that a string, a
  number or an array has of its own, so a read from these is \<^verbatim>\<open>undefined\<close>.
\<close>

fun opt_get :: "jsval \<Rightarrow> string \<Rightarrow> jsval" where
  "opt_get (JObj kvs) k = (case map_of kvs k of Some v \<Rightarrow> v | None \<Rightarrow> JUndefined)"
| "opt_get v k = JUndefined"

fun get :: "jsval \<Rightarrow> string \<Rightarrow> exn + jsval" where
  "get JUndefined k = Inl TypeError"
| "get JNull k = Inl TypeError"
| "get v k = Inr (opt_get v k)"

text \<open>
  What the program takes from its surroundings: the clock readings as the two handlers format
  them, the value of \<^verbatim>\<open>Math.random()\<close>, \<^verbatim>\<open>eval\<close>, \<^verbatim>\<open>JSON.parse\<close> (\<open>None\<close> where it
  raises its SyntaxError), the number conversions outside the range where they are exact, and
  the message texts of the errors that the engine raises itself.
\<close>

record runtime =
  now_time :: string
  now_date :: string
  random :: rat
  js_eval :: "string \<Rightarrow> exn + jsval"
  json_parse :: "string \<Rightarrow> jsval option"
  js_parseInt :: "string \<Rightarrow> jsval"
  js_toString :: "jsval \<Rightarrow> string"
  js_message :: "exn \<Rightarrow> string"

text \<open>\<^verbatim>\<open>err.message\<close>\<close>

fun message_of :: "runtime \<Rightarrow> exn \<Rightarrow> string" where
  "message_of rt (Error m) = m"
| "message_of rt (ApiError c m) = m"
| "message_of rt e = js_message rt e"

subsection \<open>Numbers and text\<close>

definition digit_char :: "nat \<Rightarrow> char" where
  "digit_char n = ''0123456789'' ! n"

fun show_nat :: "nat \<Rightarrow> string" where
  "show_nat n = (if n < 10 then [digit_char n] else show_nat (n div 10) @ [digit_char (n mod 10)])"

declare show_nat.simps [simp del]

definition show_int :: "int \<Rightarrow> string" where
  "show_int i = (if i < 0 then ''-'' @ show_nat (nat (- i)) else show_nat (nat i))"

text \<open>\<^verbatim>\<open>Number.isSafeInteger\<close>: on these the decimal numeral is the text of the number.\<close>

definition safe_integer :: "rat \<Rightarrow> bool" where
  "safe_integer q = (q = of_int \<lfloor>q\<rfloor> \<and> \<bar>q\<bar> \<le> 2 ^ 53 - 1)"

text \<open>The text of a value inside a template literal.\<close>

fun to_string :: "runtime \<Rightarrow> jsval \<Rightarrow> string" where
  "to_string rt (JStr s) = s"
| "to_string rt JUndefined = ''undefined''"
| "to_string rt JNull = ''null''"
| "to_string rt (JBool b) = (if b then ''true'' else ''false'')"
| "to_string rt JNaN = ''NaN''"
| "to_string rt (JInfinity p) = (if p then ''Infinity'' else ''-Infinity'')"
| "to_string rt (JNum q) = (if safe_integer q then show_int \<lfloor>q\<rfloor> else js_toString rt (JNum q))"
| "to_string rt v = js_toString rt v"

definition digit_value :: "char \<Rightarrow> int" where
  "digit_value c = of_char c - 48"

definition digits_value :: "string \<Rightarrow> int" where
  "digits_value s = foldl (\<lambda>a c. 10 * a + digit_value c) 0 s"

text \<open>
  \<^verbatim>\<open>parseInt(n)\<close> on a string of decimal digits: the number written, where a double holds
  it exactly, and the runtime's rounding of it beyond.
\<close>

definition parseInt :: "runtime \<Rightarrow> string \<Rightarrow> jsval" where
  "parseInt rt n =
     (let v = digits_value n in if v \<le> 2 ^ 53 then JNum (of_int v) else js_parseInt rt n)"

subsection \<open>Objects\<close>

text \<open>
  \<^verbatim>\<open>{ ...a, ...b }\<close>: the properties of \<open>a\<close>, each overwritten in place by the property of
  \<open>b\<close> with its key, then the other properties of \<open>b\<close>.
\<close>

definition spread :: "obj \<Rightarrow> obj \<Rightarrow> obj" where
  "spread a b = foldl (\<lambda>acc (k, v). AList.update k v acc) a b"

section \<open>The entity extractor\<close>

text \<open>The patterns of \<^verbatim>\<open>extractEntities\<close>, in the order of the source.\<close>

definition rx_numbers :: rx where
  "rx_numbers = plus_rx digit"

definition am_pm :: rx where
  "am_pm = Alt (str_ci ''am'') (str_ci ''pm'')"

definition rx_time :: rx where
  "rx_time =
     Alt (seqs [rep_range 1 2 digit, chr CHR '':'', rep_exact 2 digit, opt space, opt am_pm])
         (seqs [rep_range 1 2 digit, opt space, am_pm])"

definition rx_url :: rx where
  "rx_url =
     seqs [str ''http'', opt (chr CHR ''s''), str ''://'', plus_rx (Cls (\<lambda>c. \<not> is_space c))]"

definition email_local :: "char \<Rightarrow> bool" where
  "email_local c = (is_alpha c \<or> is_digit c \<or> c \<in> set ''._%+-'')"

definition email_domain :: "char \<Rightarrow> bool" where
  "email_domain c = (is_alpha c \<or> is_digit c \<or> c \<in> set ''.-'')"

definition rx_email :: rx where
  "rx_email =
     seqs [plus_rx (Cls email_local), chr CHR ''@'', plus_rx (Cls email_domain), chr CHR ''.'',
           rep_exact 2 (Cls is_alpha), Star (Cls is_alpha)]"

definition rx_date_slash :: rx where
  "rx_date_slash =
     seqs [rep_range 1 2 digit, chr CHR ''/'', rep_range 1 2 digit, chr CHR ''/'',
           rep_range 2 4 digit]"

definition rx_date_iso :: rx where
  "rx_date_iso =
     seqs [rep_exact 4 digit, chr CHR ''-'', rep_exact 2 digit, chr CHR ''-'', rep_exact 2 digit]"

definition datePatterns :: "rx list" where
  "datePatterns = [rx_date_slash, rx_date_iso]"

text \<open>The loop over \<^verbatim>\<open>datePatterns\<close>: the first pattern with a match gives the date.\<close>

fun first_date :: "rx list \<Rightarrow> string \<Rightarrow> string option" where
  "first_date [] text = None"
| "first_date (p # ps) text =
     (case match_all p text of [] \<Rightarrow> first_date ps text | m # ms \<Rightarrow> Some m)"

definition extractEntities :: "runtime \<Rightarrow> string \<Rightarrow> obj" where
  "extractEntities rt text =
     (let entities = [];
          numbers = match_all rx_numbers text;
          entities = (if numbers \<noteq> []
                      then AList.update ''numbers'' (JArr (map (parseInt rt) numbers)) entities
                      else entities);
          entities = (case match_all rx_time text of
                        [] \<Rightarrow> entities
                      | m # ms \<Rightarrow> AList.update ''time'' (JStr m) entities);
          entities = (case match_all rx_url text of
                        [] \<Rightarrow> entities
                      | m # ms \<Rightarrow> AList.update ''url'' (JStr m) entities);
          entities = (case match_all rx_email text of
                        [] \<Rightarrow> entities
                      | m # ms \<Rightarrow> AList.update ''email'' (JStr m) entities);
          entities = (case first_date datePatterns text of
                        None \<Rightarrow> entities
                      | Some m \<Rightarrow> AList.update ''date'' (JStr m) entities)
      in entities)"

section \<open>The fallback rule engine\<close>

text \<open>
  The result of intent recognition and of \<^verbatim>\<open>processIntent\<close>: an object with the five
  properties \<^verbatim>\<open>intent\<close>, \<^verbatim>\<open>entities\<close>, \<^verbatim>\<open>message\<close>, \<^verbatim>\<open>confidence\<close>
  and \<^verbatim>\<open>model\<close>.
\<close>

record intent_result =
  intent :: jsval
  entities :: jsval
  message :: jsval
  confidence :: jsval
  model :: jsval

text \<open>What a pattern's handler returns: \<^verbatim>\<open>{ message, entities }\<close>.\<close>

record handler_result =
  h_message :: jsval
  h_entities :: obj

text \<open>
  An entry of the \<^verbatim>\<open>patterns\<close> table: its key, and the \<^verbatim>\<open>keywords\<close>, \<^verbatim>\<open>message\<close>,
  \<^verbatim>\<open>entities\<close>, \<^verbatim>\<open>handler\<close> and \<^verbatim>\<open>confidence\<close> of its value (the fields with
  the prefix \<open>p_\<close>). A property the source leaves out is \<^verbatim>\<open>undefined\<close> (\<open>None\<close> for the
  entities and the handler).
\<close>

record pattern =
  name :: string
  p_keywords :: "string list"
  p_message :: jsval
  p_entities :: "obj option"
  handler :: "(runtime \<Rightarrow> string \<Rightarrow> exn + handler_result) option"
  p_confidence :: rat

text \<open>A capture group of a match, and \<^verbatim>\<open>v.trim()\<close> on a value that should be a string.\<close>

definition group :: "caps \<Rightarrow> nat \<Rightarrow> jsval" where
  "group c n = (case c n of Some g \<Rightarrow> JStr g | None \<Rightarrow> JUndefined)"

fun js_trim :: "jsval \<Rightarrow> exn + string" where
  "js_trim (JStr s) = Inr (trim s)"
| "js_trim v = Inl TypeError"

subsection \<open>The handlers\<close>

definition time_handler :: "runtime \<Rightarrow> string \<Rightarrow> exn + handler_result" where
  "time_handler rt text =
     (let timeString = now_time rt in
      Inr \<lparr>h_message = JStr (''The current time is '' @ timeString @ ''.''),
           h_entities = [(''time'', JStr timeString)]\<rparr>)"

definition date_handler :: "runtime \<Rightarrow> string \<Rightarrow> exn + handler_result" where
  "date_handler rt text =
     (let dateString = now_date rt in
      Inr \<lparr>h_message = JStr (''Today is '' @ dateString @ ''.''),
           h_entities = [(''date'', JStr dateString)]\<rparr>)"

definition rx_search_words :: rx where
  "rx_search_words =
     alts [str_ci ''search for'', str_ci ''look up'', str_ci ''find'', str_ci ''google'']"

definition search_handler :: "runtime \<Rightarrow> string \<Rightarrow> exn + handler_result" where
  "search_handler rt text =
     (let query = trim (replace_all rx_search_words [] text) in
      Inr \<lparr>h_message = JStr (''I'll help you search for \"'' @ query @ ''\".''),
           h_entities = [(''query'', JStr query), (''action'', JStr ''search'')]\<rparr>)"

definition rx_open_site :: rx where
  "rx_open_site =
     seqs [alts [str_ci ''open'', str_ci ''go to'', str_ci ''navigate to'', str_ci ''visit'',
                 str_ci ''launch''],
           plus_rx space, Grp 1 (plus_rx dot)]"

definition open_website_handler :: "runtime \<Rightarrow> string \<Rightarrow> exn + handler_result" where
  "open_website_handler rt text =
     (case (case rx_search rx_open_site [] text of
              Some (pre, m, rest, c) \<Rightarrow> js_trim (group c 1)
            | None \<Rightarrow> Inr ''the website'') of
        Inl e \<Rightarrow> Inl e
      | Inr site \<Rightarrow>
          Inr \<lparr>h_message = JStr (''Opening '' @ site @ ''...''),
               h_entities = [(''website'', JStr site), (''action'', JStr ''open'')]\<rparr>)"

definition rx_remind :: rx where
  "rx_remind = seqs [str_ci ''remind me '', opt (str_ci ''to ''), Grp 1 (plus_rx dot)]"

definition rx_reminder_time :: rx where
  "rx_reminder_time =
     Seq (str_ci ''at '')
         (Grp 1 (Alt (seqs [rep_range 1 2 digit, chr CHR '':'', rep_exact 2 digit,
                            opt (Seq (opt space) am_pm)])
                     (seqs [rep_range 1 2 digit, opt space, am_pm])))"

definition rx_at_rest :: rx where
  "rx_at_rest = Seq (str_ci ''at '') (plus_rx dot)"

definition reminder_handler :: "runtime \<Rightarrow> string \<Rightarrow> exn + handler_result" where
  "reminder_handler rt text =
     (case (case rx_search rx_remind [] text of
              Some (pre, m, rest, c) \<Rightarrow> js_trim (group c 1)
            | None \<Rightarrow> Inr ''that'') of
        Inl e \<Rightarrow> Inl e
      | Inr reminder \<Rightarrow>
          (let time = (case rx_search rx_reminder_time [] reminder of
                         Some (pre, m, rest, c) \<Rightarrow> group c 1
                       | None \<Rightarrow> JNull);
               task = (if truthy time then trim (replace_first rx_at_rest [] reminder)
                       else reminder)
           in Inr \<lparr>h_message =
                      JStr (''I'll remind you to '' @ task
                            @ (if truthy time then '' at '' @ to_string rt time else [])
                            @ ''.''),
                    h_entities =
                      [(''task'', JStr task), (''time'', time),
                       (''action'', JStr ''reminder'')]\<rparr>))"

text \<open>
  The calculation handler. \<open>safe_char\<close> is the class \<^verbatim>\<open>[0-9+\-*/().\s]\<close>, \<open>rx_unsafe\<close>
  its complement, and \<open>safe_test\<close> the test of \<^verbatim>\<open>/^[0-9+\-*/().\s]+$/\<close>.
\<close>

definition rx_calc :: rx where
  "rx_calc = seqs [Alt (str_ci ''calculate'') (str_ci ''what is''), plus_rx space,
                   Grp 1 (plus_rx dot)]"

definition rx_multiply :: rx where
  "rx_multiply = seqs [str_ci ''multiply'', opt (str_ci ''ed''), str_ci '' by'']"

definition safe_char :: "char \<Rightarrow> bool" where
  "safe_char c = (is_digit c \<or> c \<in> set ''+-*/().'' \<or> is_space c)"

definition rx_unsafe :: rx where
  "rx_unsafe = Cls (\<lambda>c. \<not> safe_char c)"

definition safe_test :: "string \<Rightarrow> bool" where
  "safe_test e = (e \<noteq> [] \<and> list_all safe_char e)"

text \<open>The chain of replacements that turns the words of the operators into operators.\<close>

definition calc_rewrite :: "string \<Rightarrow> string" where
  "calc_rewrite expression =
     (let e = replace_all (str_ci ''plus'') ''+'' expression;
          e = replace_all (str_ci ''add'') ''+'' e;
          e = replace_all (str_ci ''minus'') ''-'' e;
          e = replace_all (str_ci ''subtract'') ''-'' e;
          e = replace_all (str_ci ''times'') ''*'' e;
          e = replace_all rx_multiply ''*'' e;
          e = replace_all (str_ci ''divided by'') ''/'' e;
          e = replace_all rx_unsafe [] e
      in trim e)"

definition calc_expression :: "string \<Rightarrow> exn + string" where
  "calc_expression text =
     (case (case rx_search rx_calc [] text of
              Some (pre, m, rest, c) \<Rightarrow> group c 1
            | None \<Rightarrow> JStr text) of
        JStr expression \<Rightarrow> Inr (calc_rewrite expression)
      | _ \<Rightarrow> Inl TypeError)"

text \<open>The body of the handler's \<^verbatim>\<open>try\<close> block, and the handler with its \<^verbatim>\<open>catch\<close>.\<close>

definition calc_try :: "runtime \<Rightarrow> string \<Rightarrow> exn + handler_result" where
  "calc_try rt text =
     (case calc_expression text of
        Inl e \<Rightarrow> Inl e
      | Inr expression \<Rightarrow>
          if safe_test expression then
            (case js_eval rt expression of
               Inl e \<Rightarrow> Inl e
             | Inr result \<Rightarrow>
                 Inr \<lparr>h_message = JStr (''The answer is '' @ to_string rt result @ ''.''),
                      h_entities = [(''expression'', JStr expression), (''result'', result),
                                    (''action'', JStr ''calculate'')]\<rparr>)
          else
            Inr \<lparr>h_message = JStr (''I couldn't understand that calculation. ''
                                    @ ''Try asking like 'what is 5 plus 3?'' @ [CHR 0x27]),
                 h_entities = []\<rparr>)"

definition calculation_handler :: "runtime \<Rightarrow> string \<Rightarrow> exn + handler_result" where
  "calculation_handler rt text =
     (case calc_try rt text of
        Inr r \<Rightarrow> Inr r
      | Inl error \<Rightarrow>
          Inr \<lparr>h_message = JStr ''Sorry, I couldn't calculate that. Please try again.'',
               h_entities = []\<rparr>)"

definition jokes :: "string list" where
  "jokes =
     [''Why don't scientists trust atoms? Because they make up everything!'',
      ''I told my wife she was drawing her eyebrows too high. She looked surprised.'',
      ''Why did the scarecrow win an award? He was outstanding in his field!'',
      ''What do you call a fake noodle? An impasta!'',
      ''Why don't eggs tell jokes? They'd crack each other up!'',
      ''What do you call a bear with no teeth? A gummy bear!'',
      ''Why did the math book look sad? Because it had too many problems.'',
      ''What do you call a pile of cats? A meowtain!'',
      ''Why don't oysters donate to charity? Because they're shellfish!'',
      ''What did the ocean say to the beach? Nothing, it just waved!'']"

text \<open>
  \<^verbatim>\<open>jokes[Math.floor(Math.random() * jokes.length)]\<close>; an index outside the array reads
  \<^verbatim>\<open>undefined\<close>.
\<close>

definition joke_handler :: "runtime \<Rightarrow> string \<Rightarrow> exn + handler_result" where
  "joke_handler rt text =
     (let i = \<lfloor>random rt * of_nat (length jokes)\<rfloor>;
          joke = (if 0 \<le> i \<and> i < int (length jokes) then JStr (jokes ! nat i) else JUndefined)
      in Inr \<lparr>h_message = joke, h_entities = [(''type'', JStr ''joke'')]\<rparr>)"

subsection \<open>The pattern table\<close>

text \<open>
  The bullet of the help message is U+2022, outside the 8-bit range; it is written as the three
  bytes of its UTF-8 form.
\<close>

definition bullet :: string where
  "bullet = [CHR 0xE2, CHR 0x80, CHR 0xA2]"

definition help_message :: string where
  "help_message =
     ''I can help you with:''
     @ [CHR 0x0A] @ bullet @ '' Answering questions''
     @ [CHR 0x0A] @ bullet @ '' Checking time and date''
     @ [CHR 0x0A] @ bullet @ '' Opening websites''
     @ [CHR 0x0A] @ bullet @ '' Setting reminders''
     @ [CHR 0x0A] @ bullet @ '' Simple calculations''
     @ [CHR 0x0A] @ bullet @ '' Telling jokes''
     @ [CHR 0x0A] @ bullet @ '' And much more!''"

definition patterns :: "pattern list" where
  "patterns =
     [\<lparr>name = ''greeting'',
       p_keywords = [''hello'', ''hi'', ''hey'', ''greetings'', ''good morning'',
                   ''good afternoon'', ''good evening''],
       p_message = JStr ''Hello! I'm VoiceReplica. How can I help you today?'',
       p_entities = None, handler = None, p_confidence = 0.85\<rparr>,
      \<lparr>name = ''farewell'',
       p_keywords = [''bye'', ''goodbye'', ''see you'', ''farewell'', ''good night''],
       p_message = JStr ''Goodbye! Have a great day!'',
       p_entities = None, handler = None, p_confidence = 0.85\<rparr>,
      \<lparr>name = ''thanks'',
       p_keywords = [''thank'', ''thanks'', ''appreciate'', ''grateful''],
       p_message = JStr ''You're welcome! Happy to help!'',
       p_entities = None, handler = None, p_confidence = 0.85\<rparr>,
      \<lparr>name = ''help'',
       p_keywords = [''help'', ''assist'', ''what can you do'', ''support''],
       p_message = JStr help_message,
       p_entities = None, handler = None, p_confidence = 0.80\<rparr>,
      \<lparr>name = ''time'',
       p_keywords = [''time'', ''what time'', ''what's the time'', ''current time''],
       p_message = JUndefined,
       p_entities = None, handler = Some time_handler, p_confidence = 0.90\<rparr>,
      \<lparr>name = ''date'',
       p_keywords = [''date'', ''what date'', ''what's the date'', ''today'', ''what day''],
       p_message = JUndefined,
       p_entities = None, handler = Some date_handler, p_confidence = 0.90\<rparr>,
      \<lparr>name = ''weather'',
       p_keywords = [''weather'', ''temperature'', ''forecast'', ''raining'', ''sunny'',
                   ''cloudy''],
       p_message = JStr (''I don't have real-time weather data yet, ''
                         @ ''but you can check your local weather service!''),
       p_entities = Some [(''needsWeatherAPI'', JBool True)], handler = None,
       p_confidence = 0.75\<rparr>,
      \<lparr>name = ''search'',
       p_keywords = [''search for'', ''look up'', ''find'', ''google''],
       p_message = JUndefined,
       p_entities = None, handler = Some search_handler, p_confidence = 0.85\<rparr>,
      \<lparr>name = ''open_website'',
       p_keywords = [''open'', ''go to'', ''navigate to'', ''visit'', ''launch''],
       p_message = JUndefined,
       p_entities = None, handler = Some open_website_handler, p_confidence = 0.88\<rparr>,
      \<lparr>name = ''reminder'',
       p_keywords = [''remind me'', ''set reminder'', ''remember to'', ''don't forget''],
       p_message = JUndefined,
       p_entities = None, handler = Some reminder_handler, p_confidence = 0.82\<rparr>,
      \<lparr>name = ''calculation'',
       p_keywords = [''calculate'', ''what is'', ''plus'', ''minus'', ''times'', ''divided'',
                   ''multiply'', ''add'', ''subtract''],
       p_message = JUndefined,
       p_entities = None, handler = Some calculation_handler, p_confidence = 0.85\<rparr>,
      \<lparr>name = ''joke'',
       p_keywords = [''joke'', ''make me laugh'', ''something funny'', ''tell me a joke'',
                   ''funny''],
       p_message = JUndefined,
       p_entities = None, handler = Some joke_handler, p_confidence = 0.80\<rparr>]"

subsection \<open>The match loop\<close>

text \<open>
  The inner loop over the keywords of a pattern, and the outer loop over the table: the
  function returns at the first keyword that the lower-cased, trimmed text includes.
\<close>

fun keyword_match :: "string \<Rightarrow> string list \<Rightarrow> bool" where
  "keyword_match lowerText [] = False"
| "keyword_match lowerText (keyword # ks) =
     (if includes_js lowerText keyword then True else keyword_match lowerText ks)"

fun first_match :: "string \<Rightarrow> pattern list \<Rightarrow> pattern option" where
  "first_match lowerText [] = None"
| "first_match lowerText (data # ps) =
     (if keyword_match lowerText (p_keywords data) then Some data
      else first_match lowerText ps)"

definition fallback_model :: string where
  "fallback_model = ''fallback-rule-based''"

definition matched_result :: "runtime \<Rightarrow> string \<Rightarrow> pattern \<Rightarrow> exn + intent_result" where
  "matched_result rt text data =
     (let message = p_message data;
          entities = (case p_entities data of Some es \<Rightarrow> es | None \<Rightarrow> [])
      in case handler data of
           None \<Rightarrow>
             Inr \<lparr>intent = JStr (name data),
                  entities = JObj (spread entities (extractEntities rt text)),
                  message = message,
                  confidence = JNum (p_confidence data),
                  model = JStr fallback_model\<rparr>
         | Some h \<Rightarrow>
             (case h rt text of
                Inl e \<Rightarrow> Inl e
              | Inr result \<Rightarrow>
                  Inr \<lparr>intent = JStr (name data),
                       entities = JObj (spread (spread entities (h_entities result))
                                               (extractEntities rt text)),
                       message = h_message result,
                       confidence = JNum (p_confidence data),
                       model = JStr fallback_model\<rparr>))"

definition unknown_result :: "runtime \<Rightarrow> string \<Rightarrow> intent_result" where
  "unknown_result rt text =
     \<lparr>intent = JStr ''unknown'',
      entities = JObj (extractEntities rt text),
      message = JStr (''I heard: \"'' @ text @ ''\". I'm not sure how to help with that yet. ''
                      @ ''Try saying 'help' to see what I can do!''),
      confidence = JNum 0.30,
      model = JStr fallback_model\<rparr>"

definition fallbackIntentRecognition :: "runtime \<Rightarrow> string \<Rightarrow> exn + intent_result" where
  "fallbackIntentRecognition rt text =
     (let lowerText = trim (toLowerCase text) in
      case first_match lowerText patterns of
        Some data \<Rightarrow> matched_result rt text data
      | None \<Rightarrow> Inr (unknown_result rt text))"

section \<open>The intent service\<close>

text \<open>
  The configuration that the service reads: \<^verbatim>\<open>config.maxTextLength\<close> (\<open>None\<close> when the
  environment gives a text that \<^verbatim>\<open>parseInt\<close> turns into \<^verbatim>\<open>NaN\<close>) and
  \<^verbatim>\<open>config.llm.model\<close>.
\<close>

record config =
  maxTextLength :: "int option"
  llm_model :: string

text \<open>
  The model client \<^verbatim>\<open>grokClient\<close>, when there is one, answers a prompt with the value
  \<^verbatim>\<open>output_text\<close> of its completion (a text, or \<^verbatim>\<open>undefined\<close> or any other value), on
  the right, or its promise rejects with a value, on the left: an error object of the SDK
  with its \<^verbatim>\<open>status\<close>, or any other value, also \<^verbatim>\<open>null\<close> or \<^verbatim>\<open>undefined\<close>. The
  client \<^verbatim>\<open>null\<close> is \<open>None\<close>.
\<close>

type_synonym client = "string \<Rightarrow> jsval + jsval"

text \<open>
  What the \<^verbatim>\<open>catch\<close> of \<^verbatim>\<open>callGrok\<close> receives: an exception that the code of the
  \<^verbatim>\<open>try\<close> block raised, or the value with which the client rejected. The read of
  \<^verbatim>\<open>error.status\<close> gives \<^verbatim>\<open>undefined\<close> for the first, the property for the second, and
  raises a TypeError when the client rejected with \<^verbatim>\<open>null\<close> or \<^verbatim>\<open>undefined\<close>.
\<close>

datatype thrown = Raised exn | Rejected jsval

fun raised :: "exn + 'a \<Rightarrow> thrown + 'a" where
  "raised (Inl e) = Inl (Raised e)"
| "raised (Inr x) = Inr x"

fun error_status :: "thrown \<Rightarrow> exn + jsval" where
  "error_status (Raised e) = Inr JUndefined"
| "error_status (Rejected v) = get v ''status''"

definition finalPrompt :: "string \<Rightarrow> string \<Rightarrow> string" where
  "finalPrompt systemPrompt userText =
     systemPrompt @ [CHR 0x0A, CHR 0x0A]
     @ ''Analyze the following user command and generate a structured response in the ''
     @ ''required JSON format.Follow all system rules strictly.User Command: '' @ userText"

text \<open>The object that \<^verbatim>\<open>fallbackIntentRecognition\<close> returns, as a value.\<close>

definition result_object :: "intent_result \<Rightarrow> jsval" where
  "result_object r =
     JObj [(''intent'', intent r), (''entities'', entities r), (''message'', message r),
           (''confidence'', confidence r), (''model'', model r)]"

definition fallback_object :: "runtime \<Rightarrow> string \<Rightarrow> exn + jsval" where
  "fallback_object rt userText =
     (case fallbackIntentRecognition rt userText of
        Inl e \<Rightarrow> Inl e
      | Inr r \<Rightarrow> Inr (result_object r))"

text \<open>
  Parsing the reply: \<^verbatim>\<open>JSON.parse(content)\<close>, which parses the text of the content, and
  when that raises, \<^verbatim>\<open>JSON.parse\<close> of the match of \<^verbatim>\<open>/\{[\s\S]*\}/\<close> in the content;
  \<^verbatim>\<open>content.match\<close> raises a TypeError on a content that is not a string.
\<close>

definition rx_json_object :: rx where
  "rx_json_object = seqs [chr CHR ''{'', Star (Cls (\<lambda>c. True)), chr CHR ''}'']"

definition parse_reply :: "runtime \<Rightarrow> jsval \<Rightarrow> exn + jsval" where
  "parse_reply rt content =
     (case json_parse rt (to_string rt content) of
        Some parsedResponse \<Rightarrow> Inr parsedResponse
      | None \<Rightarrow>
          (case content of
             JStr s \<Rightarrow>
               (case rx_search rx_json_object [] s of
                  None \<Rightarrow> Inl (Error ''Grok response is not valid JSON'')
                | Some (pre, m, rest, c) \<Rightarrow>
                    (case json_parse rt m of
                       Some parsedResponse \<Rightarrow> Inr parsedResponse
                     | None \<Rightarrow> Inl SyntaxError))
           | _ \<Rightarrow> Inl TypeError))"

text \<open>
  \<^verbatim>\<open>callGrok\<close>: the body of its \<^verbatim>\<open>try\<close> block, and the function with its \<^verbatim>\<open>catch\<close>. The
  system prompt, a constant text of the function, is a parameter here; the two versions of the
  service differ in it and in \<^verbatim>\<open>processIntent\<close> only. The \<^verbatim>\<open>catch\<close> reads
  \<^verbatim>\<open>error.status\<close> at its first test: where that read raises, \<^verbatim>\<open>callGrok\<close> raises the
  TypeError.
\<close>

definition callGrok_try ::
  "string \<Rightarrow> client option \<Rightarrow> runtime \<Rightarrow> string \<Rightarrow> thrown + jsval" where
  "callGrok_try systemPrompt grokClient rt userText =
     (case grokClient of
        None \<Rightarrow> raised (fallback_object rt userText)
      | Some create \<Rightarrow>
          (case create (finalPrompt systemPrompt userText) of
             Inl rejection \<Rightarrow> Inl (Rejected rejection)
           | Inr content \<Rightarrow> raised (parse_reply rt content)))"

definition callGrok :: "string \<Rightarrow> client option \<Rightarrow> runtime \<Rightarrow> string \<Rightarrow> exn + jsval" where
  "callGrok systemPrompt grokClient rt userText =
     (case callGrok_try systemPrompt grokClient rt userText of
        Inr response \<Rightarrow> Inr response
      | Inl error \<Rightarrow>
          (case error_status error of
             Inl e \<Rightarrow> Inl e
           | Inr status \<Rightarrow>
               if status = JNum 401 then
                 Inl (ApiError 502 ''Invalid LLM API key configuration'')
               else if status = JNum 429 then
                 Inl (ApiError 429 ''Rate limit exceeded. Please try again later.'')
               else if status = JNum 500 \<or> status = JNum 503 then
                 fallback_object rt userText
               else fallback_object rt userText))"

text \<open>
  \<^verbatim>\<open>processIntent\<close> of the intent service (\<^verbatim>\<open>src/unnamed/part_002\<close>): it reads the fields
  of the result under \<^verbatim>\<open>result?.data\<close>. The argument is any value; the first test refuses
  what is falsy or not a string.
\<close>

definition exceeds_max :: "config \<Rightarrow> nat \<Rightarrow> bool" where
  "exceeds_max cfg n = (case maxTextLength cfg of Some m \<Rightarrow> int n > m | None \<Rightarrow> False)"

definition max_text :: "runtime \<Rightarrow> config \<Rightarrow> string" where
  "max_text rt cfg =
     (case maxTextLength cfg of Some m \<Rightarrow> to_string rt (JNum (of_int m)) | None \<Rightarrow> ''NaN'')"

definition validate_text :: "runtime \<Rightarrow> config \<Rightarrow> jsval \<Rightarrow> exn + string" where
  "validate_text rt cfg text =
     (case text of
        JStr t \<Rightarrow>
          if \<not> truthy text then Inl (ApiError 400 ''Invalid text input'')
          else
            (let trimmedText = trim t in
             if length trimmedText = 0 then Inl (ApiError 400 ''Text cannot be empty'')
             else if exceeds_max cfg (length trimmedText) then
               Inl (ApiError 400 (''Text exceeds maximum length of '' @ max_text rt cfg
                                  @ '' characters''))
             else Inr trimmedText)
      | _ \<Rightarrow> Inl (ApiError 400 ''Invalid text input''))"

text \<open>The \<^verbatim>\<open>catch\<close> of \<^verbatim>\<open>processIntent\<close>: an ApiError passes, any other error becomes a 500.\<close>

fun rethrow :: "exn \<Rightarrow> exn" where
  "rethrow (ApiError c m) = ApiError c m"
| "rethrow e = ApiError 500 ''Failed to process intent''"

definition processIntent_try ::
  "config \<Rightarrow> string \<Rightarrow> client option \<Rightarrow> runtime \<Rightarrow> jsval \<Rightarrow> exn + intent_result" where
  "processIntent_try cfg systemPrompt grokClient rt text =
     (case validate_text rt cfg text of
        Inl e \<Rightarrow> Inl e
      | Inr trimmedText \<Rightarrow>
          (case callGrok systemPrompt grokClient rt trimmedText of
             Inl e \<Rightarrow> Inl e
           | Inr result \<Rightarrow>
               (let data = opt_get result ''data'' in
                Inr \<lparr>intent = js_or (opt_get data ''intent'') (JStr ''unknown''),
                     entities = js_or (opt_get data ''entities'') (JObj []),
                     message = js_or (opt_get data ''message'') (JStr ''Processing complete''),
                     confidence = js_or (opt_get data ''confidence'') (JNum 0.5),
                     model = js_or (opt_get (opt_get data ''metadata'') ''model'')
                                   (JStr (llm_model cfg))\<rparr>)))"

definition processIntent ::
  "config \<Rightarrow> string \<Rightarrow> client option \<Rightarrow> runtime \<Rightarrow> jsval \<Rightarrow> exn + intent_result" where
  "processIntent cfg systemPrompt grokClient rt text =
     (case processIntent_try cfg systemPrompt grokClient rt text of
        Inl error \<Rightarrow> Inl (rethrow error)
      | Inr r \<Rightarrow> Inr r)"

text \<open>
  \<^verbatim>\<open>processIntent\<close> of the earlier version of the service (\<^verbatim>\<open>src/backend/src/app.js\<close>): it
  reads the fields of the result itself, with plain property reads.
\<close>

definition processIntent_app_try ::
  "config \<Rightarrow> string \<Rightarrow> client option \<Rightarrow> runtime \<Rightarrow> jsval \<Rightarrow> exn + intent_result" where
  "processIntent_app_try cfg systemPrompt grokClient rt text =
     (case validate_text rt cfg text of
        Inl e \<Rightarrow> Inl e
      | Inr trimmedText \<Rightarrow>
          (case callGrok systemPrompt grokClient rt trimmedText of
             Inl e \<Rightarrow> Inl e
           | Inr result \<Rightarrow>
               (case get result ''intent'' of
                  Inl e \<Rightarrow> Inl e
                | Inr i \<Rightarrow>
                    Inr \<lparr>intent = js_or i (JStr ''unknown''),
                         entities = js_or (opt_get result ''entities'') (JObj []),
                         message = js_or (opt_get result ''message'')
                                         (JStr ''Processing complete''),
                         confidence = js_or (opt_get result ''confidence'') (JNum 0.5),
                         model = js_or (opt_get result ''model'') (JStr (llm_model cfg))\<rparr>)))"

definition processIntent_app ::
  "config \<Rightarrow> string \<Rightarrow> client option \<Rightarrow> runtime \<Rightarrow> jsval \<Rightarrow> exn + intent_result" where
  "processIntent_app cfg systemPrompt grokClient rt text =
     (case processIntent_app_try cfg systemPrompt grokClient rt text of
        Inl error \<Rightarrow> Inl (rethrow error)
      | Inr r \<Rightarrow> Inr r)"

section \<open>The browser extension\<close>

text \<open>
  \<^verbatim>\<open>toUpperCase\<close> on the 8-bit range: the letters a to z and U+00E0 to U+00FE (without the
  division sign U+00F7) go 32 places down, the sharp s U+00DF becomes \<^verbatim>\<open>SS\<close>. The upper-case
  forms of U+00B5 and U+00FF lie outside the range; they are written as the character itself,
  which like the true form is no ASCII letter.
\<close>

definition toUpperCase_char :: "char \<Rightarrow> string" where
  "toUpperCase_char c =
     (let n = (of_char c :: nat) in
      if (97 \<le> n \<and> n \<le> 122) \<or> (224 \<le> n \<and> n \<le> 254 \<and> n \<noteq> 247)
      then [char_of (n - 32)]
      else if n = 223 then ''SS'' else [c])"

definition toUpperCase :: "string \<Rightarrow> string" where
  "toUpperCase s = concat (map toUpperCase_char s)"

text \<open>Sequencing of steps that may raise.\<close>

definition bind :: "exn + 'a \<Rightarrow> ('a \<Rightarrow> exn + 'b) \<Rightarrow> exn + 'b" where
  "bind m f = (case m of Inl e \<Rightarrow> Inl e | Inr x \<Rightarrow> f x)"

subsection \<open>The intent handler of the background script\<close>

text \<open>
  The class \<^verbatim>\<open>IntentHandler\<close> of \<^verbatim>\<open>src/backend/src/search.js\<close>. A handler returns the
  object of an action; \<^verbatim>\<open>execute\<close> turns it into a call of the browser.
\<close>

definition join_js :: "runtime \<Rightarrow> jsval list \<Rightarrow> string" where
  "join_js rt vs =
     concat (map (\<lambda>(i, v). (if i = 0 then [] else '' '')
                          @ (case v of JUndefined \<Rightarrow> [] | JNull \<Rightarrow> [] | _ \<Rightarrow> to_string rt v))
                 (zip [0 ..< length vs] vs))"

text \<open>\<^verbatim>\<open>keywords?.length\<close> is truthy.\<close>

fun truthy_length :: "jsval \<Rightarrow> bool" where
  "truthy_length (JArr vs) = (vs \<noteq> [])"
| "truthy_length (JStr s) = (s \<noteq> [])"
| "truthy_length (JObj kvs) = truthy (opt_get (JObj kvs) ''length'')"
| "truthy_length v = False"

definition handleSearch :: "runtime \<Rightarrow> jsval \<Rightarrow> exn + jsval" where
  "handleSearch rt ents =
     (if ents = JUndefined \<or> ents = JNull then Inl TypeError
      else
        (let query = opt_get ents ''query'';
             keywords = opt_get ents ''keywords'';
             website = opt_get ents ''website''
         in bind (if truthy_length keywords then
                    (case keywords of
                       JArr ks \<Rightarrow> Inr (JStr (to_string rt query @ '' '' @ join_js rt ks))
                     | _ \<Rightarrow> Inl TypeError)
                  else Inr query)
              (\<lambda>finalQuery.
                 Inr (JObj [(''action'', JStr ''CHROME_SEARCH''),
                            (''text'',
                             if truthy website
                             then JStr (''site:'' @ to_string rt website @ '' ''
                                        @ to_string rt finalQuery)
                             else finalQuery)]))))"

definition handleOpenSite :: "jsval \<Rightarrow> exn + jsval" where
  "handleOpenSite ents =
     bind (get ents ''website'')
       (\<lambda>website. case website of
          JStr w \<Rightarrow>
            Inr (JObj [(''action'', JStr ''OPEN_URL''),
                       (''url'', JStr (if startsWith w ''http'' then w else ''https://'' @ w))])
        | _ \<Rightarrow> Inl TypeError)"

definition handleDefault :: "jsval \<Rightarrow> exn + jsval" where
  "handleDefault ents = Inr (JObj [(''action'', JStr ''NONE'')])"

text \<open>
  \<^verbatim>\<open>this.handlers[intent] || this.handleDefault\<close>, applied to the entities. The table has
  the keys \<^verbatim>\<open>search\<close>, \<^verbatim>\<open>website_search\<close>, \<^verbatim>\<open>summarize\<close> and \<^verbatim>\<open>open_site\<close>; the class
  has no method \<^verbatim>\<open>handleSummarize\<close>, so the entry of \<^verbatim>\<open>summarize\<close> is \<^verbatim>\<open>undefined\<close>.
  The table is a plain object: the key \<^verbatim>\<open>constructor\<close> finds the function \<^verbatim>\<open>Object\<close>,
  which returns an object argument as it is and a fresh object otherwise, and the key
  \<^verbatim>\<open>__proto__\<close> finds an object that cannot be called.
\<close>

definition run_handler :: "runtime \<Rightarrow> string \<Rightarrow> jsval \<Rightarrow> exn + jsval" where
  "run_handler rt key ents =
     (if key = ''search'' \<or> key = ''website_search'' then handleSearch rt ents
      else if key = ''open_site'' then handleOpenSite ents
      else if key = ''constructor'' then
        Inr (case ents of JObj kvs \<Rightarrow> ents | JArr vs \<Rightarrow> ents | _ \<Rightarrow> JObj [])
      else if key = ''__proto__'' then Inl TypeError
      else handleDefault ents)"

datatype effect = ChromeSearch jsval | TabsCreate jsval | NoEffect

definition execute :: "jsval \<Rightarrow> effect" where
  "execute result =
     (if opt_get result ''action'' = JStr ''CHROME_SEARCH'' then
        ChromeSearch (opt_get result ''text'')
      else if opt_get result ''action'' = JStr ''OPEN_URL'' then
        TabsCreate (opt_get result ''url'')
      else NoEffect)"

definition process :: "runtime \<Rightarrow> jsval \<Rightarrow> exn + effect" where
  "process rt input =
     bind (get input ''success'')
       (\<lambda>success.
          let data = opt_get input ''data'' in
          if \<not> truthy success \<or> \<not> truthy data then Inl (Error ''Invalid input format'')
          else
            (case opt_get data ''intent'' of
               JStr i \<Rightarrow>
                 bind (run_handler rt (toLowerCase i) (opt_get data ''entities''))
                   (\<lambda>result. Inr (execute result))
             | _ \<Rightarrow> Inl TypeError))"

subsection \<open>The content script\<close>

text \<open>
  The content script of \<^verbatim>\<open>src/unnamed/part_006\<close>. What it reads of the document: the text
  \<^verbatim>\<open>document.body.innerText\<close> (\<open>None\<close> for a document without a body), and for a selector
  whether \<^verbatim>\<open>document.querySelector\<close> finds an element (it raises on a selector that the
  browser refuses). What it writes to the document (values, events, clicks, the redirect of the
  timer) is not part of the model.
\<close>

record page =
  body_innerText :: "string option"
  querySelector :: "string \<Rightarrow> exn + bool"

definition rx_whitespace :: rx where
  "rx_whitespace = plus_rx space"

definition message_object :: "string \<Rightarrow> jsval" where
  "message_object m = JObj [(''message'', JStr m)]"

text \<open>\<^verbatim>\<open>data.entities.k\<close>\<close>

definition entity :: "jsval \<Rightarrow> string \<Rightarrow> exn + jsval" where
  "entity data k = bind (get data ''entities'') (\<lambda>es. get es k)"

definition googleSearch :: "page \<Rightarrow> jsval \<Rightarrow> exn + jsval" where
  "googleSearch pg data =
     bind (entity data ''query'')
       (\<lambda>q. if \<not> truthy q then Inl (Error ''No query'')
            else Inr (message_object ''Redirecting to Google''))"

definition websiteSearch :: "page \<Rightarrow> jsval \<Rightarrow> exn + jsval" where
  "websiteSearch pg data =
     bind (entity data ''query'')
       (\<lambda>q. if \<not> truthy q then Inl (Error ''No query'')
            else bind (querySelector pg ''input[type=\"search\"], input[name*=search]'')
                   (\<lambda>input. if \<not> input then Inl (Error ''Search box not found'')
                            else Inr (message_object ''Search submitted'')))"

text \<open>The keys that \<^verbatim>\<open>for (const k in fields)\<close> and \<^verbatim>\<open>Object.keys(fields)\<close> visit.\<close>

fun keys_of :: "jsval \<Rightarrow> string list" where
  "keys_of (JObj kvs) = map fst kvs"
| "keys_of (JArr vs) = map show_nat [0 ..< length vs]"
| "keys_of (JStr s) = map show_nat [0 ..< length s]"
| "keys_of v = []"

fun formFill_loop :: "page \<Rightarrow> string list \<Rightarrow> nat \<Rightarrow> exn + nat" where
  "formFill_loop pg [] count = Inr count"
| "formFill_loop pg (k # ks) count =
     bind (querySelector pg (''input[name*=\"'' @ k @ ''\"], textarea[name*=\"'' @ k @ ''\"]''))
       (\<lambda>el. formFill_loop pg ks (if el then count + 1 else count))"

definition formFill :: "page \<Rightarrow> jsval \<Rightarrow> exn + jsval" where
  "formFill pg data =
     bind (entity data ''form_fields'')
       (\<lambda>fields. if \<not> truthy fields then Inl (Error ''No fields'')
                 else bind (formFill_loop pg (keys_of fields) 0)
                        (\<lambda>count. Inr (message_object (''Filled '' @ show_nat count
                                                       @ '' fields''))))"

definition auto :: "page \<Rightarrow> string \<Rightarrow> jsval \<Rightarrow> exn + unit" where
  "auto pg field val =
     (if \<not> truthy val then Inr ()
      else bind (querySelector pg (''input[name*=\"'' @ field @ ''\"]'')) (\<lambda>el. Inr ()))"

definition bookTicket :: "page \<Rightarrow> jsval \<Rightarrow> exn + jsval" where
  "bookTicket pg data =
     bind (bind (entity data ''from'') (auto pg ''from''))
       (\<lambda>_. bind (bind (entity data ''to'') (auto pg ''to''))
         (\<lambda>_. bind (bind (entity data ''date'') (auto pg ''date''))
           (\<lambda>_. bind (querySelector pg ''button[type=submit]'')
             (\<lambda>button. Inr (message_object ''Booking submitted'')))))"

definition summarize :: "page \<Rightarrow> exn + jsval" where
  "summarize pg =
     (case body_innerText pg of
        None \<Rightarrow> Inl TypeError
      | Some innerText \<Rightarrow>
          (let text = take 5000 (replace_all rx_whitespace '' '' innerText)
           in Inr (JObj [(''summary'', JStr text)])))"

text \<open>
  The listener of the content script. \<open>content_switch\<close> is the \<^verbatim>\<open>switch\<close> inside the
  \<^verbatim>\<open>try\<close> block; the listener sends its reply after it, or from the \<^verbatim>\<open>catch\<close>. The result
  is the list of the calls of \<^verbatim>\<open>sendResponse\<close>, each with its argument, and the value that
  the listener returns.
\<close>

definition content_switch :: "page \<Rightarrow> jsval \<Rightarrow> exn + jsval" where
  "content_switch pg msg =
     bind (get msg ''type'')
       (\<lambda>type.
          let payload = opt_get msg ''payload'' in
          if type = JStr ''SEARCH'' then googleSearch pg payload
          else if type = JStr ''WEBSITE_SEARCH'' then websiteSearch pg payload
          else if type = JStr ''FORM_FILL'' then formFill pg payload
          else if type = JStr ''BOOK_TICKET'' then bookTicket pg payload
          else if type = JStr ''SUMMARIZE'' then summarize pg
          else Inl (Error ''Unknown command''))"

definition success_reply :: "jsval \<Rightarrow> jsval" where
  "success_reply result = JObj [(''success'', JBool True), (''data'', result)]"

definition failure_reply :: "runtime \<Rightarrow> exn \<Rightarrow> jsval" where
  "failure_reply rt err = JObj [(''success'', JBool False), (''error'', JStr (message_of rt err))]"

definition content_listener :: "runtime \<Rightarrow> page \<Rightarrow> jsval \<Rightarrow> jsval list \<times> bool" where
  "content_listener rt pg msg =
     (let sent = (case content_switch pg msg of
                    Inr result \<Rightarrow> [success_reply result]
                  | Inl err \<Rightarrow> [] @ [failure_reply rt err])
      in (sent, True))"

subsection \<open>The router\<close>

text \<open>
  The second script of \<^verbatim>\<open>src/backend/src/search.js\<close>: a message listener that relays an
  intent to the content script of a tab, or works on its own document. What it takes from the
  browser: the tabs that the two queries find, the tab that \<^verbatim>\<open>chrome.tabs.create\<close> gives
  to its callback, the outcome of the injection of the content script, and for a message sent
  to a tab either the text of \<^verbatim>\<open>chrome.runtime.lastError\<close> or the response.
\<close>

record tab =
  tab_id :: nat
  tab_url :: "string option"

record browser =
  query_active :: "exn + tab list"
  query_all :: "exn + tab list"
  create_tab :: "tab option"
  executeScript :: "nat \<Rightarrow> exn + unit"
  sendMessage :: "nat \<Rightarrow> jsval \<Rightarrow> string + jsval"

definition valid_tab :: "tab \<Rightarrow> bool" where
  "valid_tab t =
     (case tab_url t of
        None \<Rightarrow> False
      | Some u \<Rightarrow> u \<noteq> [] \<and> \<not> startsWith u ''chrome://'' \<and> \<not> startsWith u ''edge://''
                  \<and> \<not> startsWith u ''about:'')"

text \<open>The body of the \<^verbatim>\<open>try\<close> block of \<^verbatim>\<open>sendToContent\<close>, and the function with its catch.\<close>

definition sendToContent_try :: "browser \<Rightarrow> jsval \<Rightarrow> exn + jsval" where
  "sendToContent_try br payload =
     bind (query_active br)
       (\<lambda>tabs.
          bind (case tabs of
                  t # ts \<Rightarrow> Inr (Some t)
                | [] \<Rightarrow> bind (query_all br) (\<lambda>allTabs. Inr (find valid_tab allTabs)))
            (\<lambda>found.
               case (case found of Some t \<Rightarrow> Some t | None \<Rightarrow> create_tab br) of
                 None \<Rightarrow> Inl TypeError
               | Some t \<Rightarrow>
                   bind (executeScript br (tab_id t))
                     (\<lambda>_. case sendMessage br (tab_id t) payload of
                             Inl lastError \<Rightarrow> Inl (Error lastError)
                           | Inr response \<Rightarrow>
                               if \<not> truthy response
                               then Inl (Error ''No response from content.js'')
                               else Inr response)))"

definition sendToContent :: "runtime \<Rightarrow> browser \<Rightarrow> jsval \<Rightarrow> jsval" where
  "sendToContent rt br payload =
     (case sendToContent_try br payload of
        Inr response \<Rightarrow> response
      | Inl err \<Rightarrow> JObj [(''success'', JBool False), (''error'', JStr (message_of rt err))])"

definition relay :: "runtime \<Rightarrow> browser \<Rightarrow> string \<Rightarrow> jsval \<Rightarrow> exn + jsval" where
  "relay rt br type data =
     Inr (sendToContent rt br (JObj [(''type'', JStr type), (''payload'', data)]))"

definition handleGoogleSearch :: "runtime \<Rightarrow> browser \<Rightarrow> jsval \<Rightarrow> exn + jsval" where
  "handleGoogleSearch rt br data = relay rt br ''SEARCH'' data"

definition handleWebsiteSearch :: "runtime \<Rightarrow> browser \<Rightarrow> jsval \<Rightarrow> exn + jsval" where
  "handleWebsiteSearch rt br data = relay rt br ''WEBSITE_SEARCH'' data"

definition handleNavigation :: "runtime \<Rightarrow> browser \<Rightarrow> jsval \<Rightarrow> exn + jsval" where
  "handleNavigation rt br data = relay rt br ''NAVIGATION'' data"

fun handleFormFill_loop :: "page \<Rightarrow> string list \<Rightarrow> nat \<Rightarrow> exn + nat" where
  "handleFormFill_loop pg [] filled = Inr filled"
| "handleFormFill_loop pg (k # ks) filled =
     bind (querySelector pg (''input[name*=\"'' @ k @ ''\"], input[id*=\"'' @ k
                             @ ''\"], textarea[name*=\"'' @ k @ ''\"]''))
       (\<lambda>input. handleFormFill_loop pg ks (if input then filled + 1 else filled))"

definition handleFormFill :: "page \<Rightarrow> jsval \<Rightarrow> exn + jsval" where
  "handleFormFill pg data =
     bind (entity data ''form_fields'')
       (\<lambda>fields.
          if \<not> truthy fields \<or> length (keys_of fields) = 0
          then Inl (Error ''No form fields provided'')
          else bind (handleFormFill_loop pg (keys_of fields) 0)
                 (\<lambda>filled.
                    Inr (JObj [(''success'', JBool True),
                               (''message'', JStr (''Filled '' @ show_nat filled
                                                   @ '' fields''))])))"

definition autoFill :: "page \<Rightarrow> string \<Rightarrow> jsval \<Rightarrow> exn + unit" where
  "autoFill pg field val =
     (if \<not> truthy val then Inr ()
      else bind (querySelector pg (''input[name*=\"'' @ field @ ''\"], input[id*=\"'' @ field
                                  @ ''\"]''))
             (\<lambda>el. Inr ()))"

definition handleBooking :: "page \<Rightarrow> jsval \<Rightarrow> exn + jsval" where
  "handleBooking pg data =
     bind (get data ''entities'')
       (\<lambda>es.
          if es = JUndefined \<or> es = JNull then Inl TypeError
          else
            bind (autoFill pg ''from'' (opt_get es ''from''))
              (\<lambda>_. bind (autoFill pg ''to'' (opt_get es ''to''))
                (\<lambda>_. bind (autoFill pg ''date'' (opt_get es ''date''))
                  (\<lambda>_. bind (querySelector pg
                               ''button[type=\"submit\"], input[type=\"submit\"]'')
                    (\<lambda>submit.
                       Inr (JObj [(''success'', JBool True),
                                  (''message'', JStr ''Booking form processed'')]))))))"

definition handleSummarize :: "page \<Rightarrow> exn + jsval" where
  "handleSummarize pg =
     (case body_innerText pg of
        None \<Rightarrow> Inl TypeError
      | Some innerText \<Rightarrow>
          (let clean = take 5000 (trim (replace_all rx_whitespace '' '' innerText))
           in Inr (JObj [(''success'', JBool True), (''summary'', JStr clean),
                         (''message'', JStr ''Page content extracted'')])))"

text \<open>
  The listener of the router. Its first statement reads
  \<^verbatim>\<open>message.data.data.intent.toUpperCase()\<close> for the log, before the \<^verbatim>\<open>try\<close> block: where
  that raises, the listener raises (\<open>Inl\<close>), sends no reply and returns no value.
\<close>

definition intent_upper :: "jsval \<Rightarrow> exn + string" where
  "intent_upper msg =
     bind (get msg ''data'')
       (\<lambda>d. bind (get d ''data'')
          (\<lambda>dd. bind (get dd ''intent'')
             (\<lambda>i. case i of JStr s \<Rightarrow> Inr (toUpperCase s) | _ \<Rightarrow> Inl TypeError)))"

definition router_switch :: "runtime \<Rightarrow> browser \<Rightarrow> page \<Rightarrow> jsval \<Rightarrow> exn + jsval" where
  "router_switch rt br pg msg =
     bind (intent_upper msg)
       (\<lambda>command.
          let data = opt_get (opt_get msg ''data'') ''data'' in
          if command = ''SEARCH'' then handleGoogleSearch rt br data
          else if command = ''NAVIGATION'' then handleNavigation rt br data
          else if command = ''FORM_FILL'' then handleFormFill pg data
          else if command = ''WEBSITE_SEARCH'' then handleWebsiteSearch rt br data
          else if command = ''BOOK_TICKET'' then handleBooking pg data
          else if command = ''SUMMARIZE'' then handleSummarize pg
          else Inr (JObj [(''success'', JBool False), (''error'', JStr ''Unknown command'')]))"

definition router_listener ::
  "runtime \<Rightarrow> browser \<Rightarrow> page \<Rightarrow> jsval \<Rightarrow> exn + jsval list \<times> bool" where
  "router_listener rt br pg msg =
     bind (intent_upper msg)
       (\<lambda>logged.
          let sent = (case router_switch rt br pg msg of
                        Inr result \<Rightarrow> [success_reply result]
                      | Inl err \<Rightarrow> [] @ [failure_reply rt err])
          in Inr (sent, True))"

section \<open>Notions used in the statements\<close>

subsection \<open>Of the matcher\<close>

text \<open>\<open>sets_group n r\<close>: every way through \<open>r\<close> passes the group \<open>n\<close>.\<close>

fun sets_group :: "nat \<Rightarrow> rx \<Rightarrow> bool" where
  "sets_group n Eps = False"
| "sets_group n (Cls p) = False"
| "sets_group n (Seq a b) = (sets_group n a \<or> sets_group n b)"
| "sets_group n (Alt a b) = (sets_group n a \<and> sets_group n b)"
| "sets_group n (Star a) = False"
| "sets_group n (Grp m a) = (m = n \<or> sets_group n a)"

text \<open>\<open>nullable r\<close>: the pattern \<open>r\<close> can match the empty string.\<close>

fun nullable :: "rx \<Rightarrow> bool" where
  "nullable Eps = True"
| "nullable (Cls p) = False"
| "nullable (Seq a b) = (nullable a \<and> nullable b)"
| "nullable (Alt a b) = (nullable a \<or> nullable b)"
| "nullable (Star a) = True"
| "nullable (Grp n a) = nullable a"

text \<open>The leftmost match of a pattern in a text, if there is one.\<close>

definition leftmost :: "rx \<Rightarrow> string \<Rightarrow> string option" where
  "leftmost r s = (case rx_search r [] s of None \<Rightarrow> None | Some (pre, m, rest, c) \<Rightarrow> Some m)"

text \<open>The maximal runs of the characters of a class in a text, from left to right.\<close>

function runs_of :: "(char \<Rightarrow> bool) \<Rightarrow> string \<Rightarrow> string list" where
  "runs_of P [] = []"
| "runs_of P (c # cs) =
     (if P c then (c # takeWhile P cs) # runs_of P (dropWhile P cs) else runs_of P cs)"
  by pat_completeness auto
termination
  by (relation "measure (\<lambda>(P, s). length s)")
     (auto simp: length_dropWhile_le less_Suc_eq_le)

subsection \<open>Of the fallback rule engine\<close>

text \<open>
  In the words of the specification: a pattern is hit when one of its keywords is a substring
  of the lower-cased, trimmed input.
\<close>

definition pattern_hits :: "string \<Rightarrow> pattern \<Rightarrow> bool" where
  "pattern_hits lowerText p = (\<exists>k\<in>set (p_keywords p). \<exists>a b. lowerText = a @ k @ b)"

text \<open>The closed set of intents that the specification gives for an intent result.\<close>

definition closed_intents :: "string list" where
  "closed_intents =
     [''search'', ''qna'', ''summarize'', ''form_fill'', ''book_ticket'', ''website_search'',
      ''navigation'', ''other'', ''unknown'']"

text \<open>The intents of the fallback engine: the keys of its pattern table, and \<^verbatim>\<open>unknown\<close>.\<close>

definition fallback_intents :: "string list" where
  "fallback_intents =
     [''greeting'', ''farewell'', ''thanks'', ''help'', ''time'', ''date'', ''weather'',
      ''search'', ''open_website'', ''reminder'', ''calculation'', ''joke'', ''unknown'']"

text \<open>The result of the calculation handler when it cannot calculate.\<close>

definition calc_apology :: handler_result where
  "calc_apology =
     \<lparr>h_message = JStr ''Sorry, I couldn't calculate that. Please try again.'',
      h_entities = []\<rparr>"

text \<open>The object that the extractor builds, property by property.\<close>

definition numbers_part :: "runtime \<Rightarrow> string \<Rightarrow> obj" where
  "numbers_part rt text =
     (if match_all rx_numbers text \<noteq> []
      then [(''numbers'', JArr (map (parseInt rt) (match_all rx_numbers text)))] else [])"

definition string_part :: "string \<Rightarrow> string option \<Rightarrow> obj" where
  "string_part k found = (case found of None \<Rightarrow> [] | Some m \<Rightarrow> [(k, JStr m)])"

subsection \<open>Of the browser extension\<close>

text \<open>The action that opens a URL.\<close>

definition open_url :: "string \<Rightarrow> jsval" where
  "open_url url = JObj [(''action'', JStr ''OPEN_URL''), (''url'', JStr url)]"

text \<open>
  In the words of the specification: the summary is the visible text of the body with every
  run of whitespace collapsed to a single space, trimmed, and cut to 5000 characters.
\<close>

function collapse_ws :: "string \<Rightarrow> string" where
  "collapse_ws [] = []"
| "collapse_ws (c # cs) =
     (if is_space c then CHR '' '' # collapse_ws (dropWhile is_space cs)
      else c # collapse_ws cs)"
  by pat_completeness auto
termination
  by (relation "measure length") (auto simp: length_dropWhile_le less_Suc_eq_le)

definition summary_spec :: "string \<Rightarrow> string" where
  "summary_spec body = take 5000 (trim (collapse_ws body))"

subsection \<open>Sample inputs\<close>

text \<open>
  A runtime for the examples: a fixed clock and random value, an \<^verbatim>\<open>eval\<close> that knows the
  sum \<^verbatim>\<open>5 + 3\<close> and rejects every other text, and a \<^verbatim>\<open>JSON.parse\<close> that rejects every
  text.
\<close>

definition sample_runtime :: runtime where
  "sample_runtime =
     \<lparr>now_time = ''10:15:00 AM'', now_date = ''Monday, November 2, 2026'', random = 0,
      js_eval = (\<lambda>s. if s = ''5 + 3'' then Inr (JNum 8) else Inl SyntaxError),
      json_parse = (\<lambda>s. None),
      js_parseInt = (\<lambda>s. JInfinity True),
      js_toString = (\<lambda>v. ''[object Object]''),
      js_message = (\<lambda>e. ''engine error'')\<rparr>"

definition sample_config :: config where
  "sample_config = \<lparr>maxTextLength = Some 1000, llm_model = ''grok-beta''\<rparr>"

definition sample_text :: string where
  "sample_text = ''on 2024-01-02 or 1/2/24 at 5:30 pm mail bob@x.org or see https://a.b/c now''"

section \<open>Facts about strings and the matcher\<close>

lemma startsWith_iff: "startsWith s p \<longleftrightarrow> (\<exists>b. s = p @ b)"
  by (induction s p rule: startsWith.induct) auto

lemma includes_js_iff: "includes_js s k \<longleftrightarrow> (\<exists>a b. s = a @ k @ b)"
proof (induction s)
  case Nil
  then show ?case by auto
next
  case (Cons x xs)
  show ?case
  proof
    assume "includes_js (x # xs) k"
    then consider "startsWith (x # xs) k" | "includes_js xs k" by auto
    then show "\<exists>a b. x # xs = a @ k @ b"
    proof cases
      case 1
      then obtain b where "x # xs = k @ b" by (auto simp: startsWith_iff)
      then have "x # xs = [] @ k @ b" by simp
      then show ?thesis by blast
    next
      case 2
      with Cons obtain a b where "xs = a @ k @ b" by blast
      then have "x # xs = (x # a) @ k @ b" by simp
      then show ?thesis by blast
    qed
  next
    assume "\<exists>a b. x # xs = a @ k @ b"
    then obtain a b where ab: "x # xs = a @ k @ b" by blast
    show "includes_js (x # xs) k"
    proof (cases a)
      case Nil
      with ab have "startsWith (x # xs) k" by (auto simp: startsWith_iff)
      then show ?thesis by simp
    next
      case (Cons y ys)
      with ab have "xs = ys @ k @ b" by simp
      with Cons.IH have "includes_js xs k" by blast
      then show ?thesis by simp
    qed
  qed
qed

lemma set_trim: "set (trim s) \<subseteq> set s"
proof -
  have "set (trim s) = set (dropWhile is_space (rev (dropWhile is_space s)))"
    by (simp add: trim_def)
  also have "\<dots> \<subseteq> set (rev (dropWhile is_space s))"
    by (auto dest: set_dropWhileD)
  also have "\<dots> \<subseteq> set s"
    by (auto dest: set_dropWhileD)
  finally show ?thesis .
qed

text \<open>The head of a run is in the run.\<close>

lemma rx_search_first:
  "rx_search r pre s = Some (pre', m, rest, c) \<Longrightarrow>
     \<exists>t. (rest, c) \<in> set (rx_run r t Map.empty) \<and> m = take (length t - length rest) t
         \<and> pre' @ t = pre @ s"
proof (induction r pre s rule: rx_search.induct)
  case (1 r pre s)
  note unfolded = "1.prems"[unfolded rx_search.simps[of r pre s]]
  show ?case
  proof (cases "rx_run r s Map.empty")
    case Nil
    with unfolded obtain x xs where s: "s = x # xs"
      and rec: "rx_search r (pre @ [x]) xs = Some (pre', m, rest, c)"
      by (cases s) auto
    from "1.IH"[OF Nil s rec] s show ?thesis by simp
  next
    case (Cons a list)
    obtain s1 c1 where a: "a = (s1, c1)" by (cases a)
    with Cons unfolded have eq: "pre' = pre" "m = take (length s - length s1) s" "rest = s1"
      "c = c1"
      by auto
    from Cons a have "(s1, c1) \<in> set (rx_run r s Map.empty)" by simp
    with eq show ?thesis by auto
  qed
qed

subsection \<open>Capture groups\<close>

lemma rx_run_caps_mono:
  "(s', c') \<in> set (rx_run r s c) \<Longrightarrow> c n \<noteq> None \<Longrightarrow> c' n \<noteq> None"
proof (induction r s c arbitrary: s' c' rule: rx_run.induct)
  case (1 s c)
  then show ?case by simp
next
  case (2 p s c)
  then show ?case by (cases s) (auto split: if_splits)
next
  case (3 a b s c)
  from "3.prems" obtain s1 c1 where a: "(s1, c1) \<in> set (rx_run a s c)"
    and b: "(s', c') \<in> set (rx_run b s1 c1)" by auto
  from "3.IH"(1)[OF a "3.prems"(2)] have "c1 n \<noteq> None" .
  from "3.IH"(2)[OF a refl b this] show ?case .
next
  case (4 a b s c)
  then show ?case by auto
next
  case (5 a s c)
  from "5.prems"(1) have
    "(s', c') \<in> set (concat (map (\<lambda>(s', c'). if length s' < length s
        then rx_run (Star a) s' c' else []) (rx_run a s c)) @ [(s, c)])"
    by (subst (asm) rx_run.simps(5)) simp
  then consider
    (iter) s1 c1 where "(s1, c1) \<in> set (rx_run a s c)" "length s1 < length s"
        "(s', c') \<in> set (rx_run (Star a) s1 c1)"
    | (stop) "c' = c"
    by (auto split: if_splits)
  then show ?case
  proof cases
    case iter
    from "5.IH"(1)[OF iter(1) "5.prems"(2)] have "c1 n \<noteq> None" .
    from "5.IH"(2)[OF iter(1) refl iter(2) iter(3) this] show ?thesis .
  next
    case stop
    with "5.prems"(2) show ?thesis by simp
  qed
next
  case (6 m a s c)
  from "6.prems"(1) obtain c1 where a: "(s', c1) \<in> set (rx_run a s c)"
    and c': "c' = c1(m \<mapsto> take (length s - length s') s)" by auto
  from "6.IH"[OF a "6.prems"(2)] c' show ?case by simp
qed

lemma rx_run_sets_group:
  "(s', c') \<in> set (rx_run r s c) \<Longrightarrow> sets_group n r \<Longrightarrow> c' n \<noteq> None"
proof (induction r arbitrary: s c s' c')
  case Eps
  then show ?case by simp
next
  case (Cls p)
  then show ?case by simp
next
  case (Seq a b)
  from Seq.prems(1) obtain s1 c1 where a: "(s1, c1) \<in> set (rx_run a s c)"
    and b: "(s', c') \<in> set (rx_run b s1 c1)" by auto
  from Seq.prems(2) consider "sets_group n a" | "sets_group n b" by auto
  then show ?case
  proof cases
    case 1
    from Seq.IH(1)[OF a 1] have "c1 n \<noteq> None" .
    from rx_run_caps_mono[OF b this] show ?thesis .
  next
    case 2
    from Seq.IH(2)[OF b 2] show ?thesis .
  qed
next
  case (Alt a b)
  then show ?case by auto
next
  case (Star a)
  then show ?case by simp
next
  case (Grp m a)
  from Grp.prems(1) obtain c1 where a: "(s', c1) \<in> set (rx_run a s c)"
    and c': "c' = c1(m \<mapsto> take (length s - length s') s)" by auto
  show ?case
  proof (cases "m = n")
    case True
    with c' show ?thesis by simp
  next
    case False
    with Grp.prems(2) have "sets_group n a" by simp
    from Grp.IH[OF a this] c' show ?thesis by simp
  qed
qed

lemma rx_search_sets_group:
  assumes "rx_search r pre s = Some (pre', m, rest, c)" and "sets_group n r"
  shows "\<exists>g. c n = Some g"
proof -
  from rx_search_first[OF assms(1)] obtain t where "(rest, c) \<in> set (rx_run r t Map.empty)"
    by blast
  from rx_run_sets_group[OF this assms(2)] show ?thesis by auto
qed

subsection \<open>Matches of a pattern that cannot match the empty string\<close>

lemma rx_run_length:
  "(s', c') \<in> set (rx_run r s c) \<Longrightarrow> length s' \<le> length s"
  by (auto dest: rx_run_suffix)

lemma rx_run_progress:
  "(s', c') \<in> set (rx_run r s c) \<Longrightarrow> \<not> nullable r \<Longrightarrow> length s' < length s"
proof (induction r arbitrary: s c s' c')
  case Eps
  then show ?case by simp
next
  case (Cls p)
  then show ?case by (cases s) (auto split: if_splits)
next
  case (Seq a b)
  from Seq.prems(1) obtain s1 c1 where a: "(s1, c1) \<in> set (rx_run a s c)"
    and b: "(s', c') \<in> set (rx_run b s1 c1)" by auto
  from Seq.prems(2) consider "\<not> nullable a" | "\<not> nullable b" by auto
  then show ?case
  proof cases
    case 1
    from Seq.IH(1)[OF a 1] rx_run_length[OF b] show ?thesis by simp
  next
    case 2
    from Seq.IH(2)[OF b 2] rx_run_length[OF a] show ?thesis by simp
  qed
next
  case (Alt a b)
  then show ?case by auto
next
  case (Star a)
  then show ?case by simp
next
  case (Grp m a)
  then show ?case by auto
qed

lemma rx_search_nonempty:
  assumes "rx_search r pre s = Some (pre', m, rest, c)" and "\<not> nullable r"
  shows "m \<noteq> []"
proof -
  from rx_search_first[OF assms(1)] obtain t where t: "(rest, c) \<in> set (rx_run r t Map.empty)"
    and m: "m = take (length t - length rest) t" by blast
  from rx_run_progress[OF t assms(2)] have "length rest < length t" .
  with m show ?thesis by auto
qed

text \<open>
  The search is leftmost: where it reports a match after the text \<open>pre'\<close>, the pattern matches
  at no earlier start position.
\<close>

lemma rx_search_leftmost:
  "rx_search r pre s = Some (pre', m, rest, c) \<Longrightarrow>
     \<exists>skipped. pre' = pre @ skipped
        \<and> (\<forall>i < length skipped. rx_run r (drop i s) Map.empty = [])"
proof (induction r pre s rule: rx_search.induct)
  case (1 r pre s)
  note unfolded = "1.prems"[unfolded rx_search.simps[of r pre s]]
  show ?case
  proof (cases "rx_run r s Map.empty")
    case Nil
    with unfolded obtain x xs where s: "s = x # xs"
      and rec: "rx_search r (pre @ [x]) xs = Some (pre', m, rest, c)"
      by (cases s) auto
    from "1.IH"[OF Nil s rec] obtain sk where sk: "pre' = (pre @ [x]) @ sk"
      and none: "\<forall>i < length sk. rx_run r (drop i xs) Map.empty = []" by blast
    have "\<forall>i < length (x # sk). rx_run r (drop i s) Map.empty = []"
    proof (intro allI impI)
      fix i assume i: "i < length (x # sk)"
      show "rx_run r (drop i s) Map.empty = []"
      proof (cases i)
        case 0
        with Nil show ?thesis by simp
      next
        case (Suc j)
        with i none s show ?thesis by simp
      qed
    qed
    with sk show ?thesis by (intro exI[of _ "x # sk"]) simp
  next
    case (Cons a list)
    obtain s1 c1 where a: "a = (s1, c1)" by (cases a)
    with Cons unfolded have "pre' = pre" by auto
    then show ?thesis by (intro exI[of _ "[]"]) simp
  qed
qed

lemma match_all_Nil_iff: "match_all r s = [] \<longleftrightarrow> rx_search r [] s = None"
  by (subst match_all.simps) (auto split: option.splits list.splits)

lemma match_all_hd:
  "rx_search r [] s = Some (pre, m, rest, c) \<Longrightarrow> \<exists>ms. match_all r s = m # ms"
  by (subst match_all.simps) (auto split: list.splits)

subsection \<open>Deleting the characters of a class\<close>

lemma rx_search_Cls:
  "rx_search (Cls P) pre s =
     (case dropWhile (\<lambda>x. \<not> P x) s of
        [] \<Rightarrow> None
      | x # xs \<Rightarrow> Some (pre @ takeWhile (\<lambda>x. \<not> P x) s, [x], xs, Map.empty))"
proof (induction s arbitrary: pre)
  case Nil
  then show ?case by (simp add: rx_search.simps)
next
  case (Cons y ys)
  show ?case
  proof (cases "P y")
    case True
    then show ?thesis by (subst rx_search.simps) simp
  next
    case False
    then have step: "rx_search (Cls P) pre (y # ys) = rx_search (Cls P) (pre @ [y]) ys"
      by (subst rx_search.simps) simp
    from False have dw: "dropWhile (\<lambda>x. \<not> P x) (y # ys) = dropWhile (\<lambda>x. \<not> P x) ys"
      and tw: "takeWhile (\<lambda>x. \<not> P x) (y # ys) = y # takeWhile (\<lambda>x. \<not> P x) ys"
      by simp_all
    show ?thesis
      unfolding step Cons[of "pre @ [y]"] dw tw
      by (cases "dropWhile (\<lambda>x. \<not> P x) ys")
         (simp_all only: list.case append_assoc append_Cons append_Nil)
  qed
qed

lemma replace_all_Cls: "replace_all (Cls P) [] s = filter (\<lambda>x. \<not> P x) s"
proof (induction "length s" arbitrary: s rule: less_induct)
  case less
  show ?case
  proof (cases "dropWhile (\<lambda>x. \<not> P x) s")
    case Nil
    then have all: "\<forall>x\<in>set s. \<not> P x" by simp
    have "rx_search (Cls P) [] s = None"
      by (simp only: rx_search_Cls Nil list.case)
    then have "replace_all (Cls P) [] s = s"
      by (subst replace_all.simps) simp
    moreover from all have "filter (\<lambda>x. \<not> P x) s = s" by simp
    ultimately show ?thesis by simp
  next
    case (Cons x xs)
    have split: "s = takeWhile (\<lambda>x. \<not> P x) s @ x # xs"
      using Cons takeWhile_dropWhile_id[of "\<lambda>x. \<not> P x" s] by simp
    then have "length xs < length s"
      by (metis length_append length_Cons less_add_Suc2 add_Suc_right)
    from less[OF this] have IH: "replace_all (Cls P) [] xs = filter (\<lambda>x. \<not> P x) xs" .
    from Cons have Px: "P x" using hd_dropWhile[of "\<lambda>x. \<not> P x" s] by auto
    have "rx_search (Cls P) [] s = Some (takeWhile (\<lambda>x. \<not> P x) s, [x], xs, Map.empty)"
      by (simp only: rx_search_Cls Cons list.case append_Nil)
    with IH have "replace_all (Cls P) [] s
        = takeWhile (\<lambda>x. \<not> P x) s @ filter (\<lambda>x. \<not> P x) xs"
      by (subst replace_all.simps) simp
    moreover have "filter (\<lambda>x. \<not> P x) s
        = filter (\<lambda>x. \<not> P x) (takeWhile (\<lambda>x. \<not> P x) s @ x # xs)"
      using split by simp
    moreover have "filter (\<lambda>x. \<not> P x) (takeWhile (\<lambda>x. \<not> P x) s) = takeWhile (\<lambda>x. \<not> P x) s"
      by (rule filter_True) (auto dest: set_takeWhileD)
    ultimately show ?thesis using Px by simp
  qed
qed

subsection \<open>Replacing the runs of a class\<close>

text \<open>
  For the pattern \<open>P+\<close> of a class \<open>P\<close>: the greedy star takes the longest run first, a
  search finds the first character of the class with the run that follows it, and the global
  replacement keeps the other characters and puts the replacement for every maximal run.
\<close>

lemma rx_run_star_cls_step:
  "rx_run (Star (Cls P)) (x # xs) c =
     (if P x then rx_run (Star (Cls P)) xs c else []) @ [(x # xs, c)]"
  by (subst rx_run.simps(5)) simp

lemma rx_run_star_cls_hd:
  "\<exists>others. rx_run (Star (Cls P)) s c = (dropWhile P s, c) # others"
proof (induction s)
  case Nil
  show ?case by (subst rx_run.simps(5)) simp
next
  case (Cons x xs)
  then show ?case by (auto simp: rx_run_star_cls_step)
qed

lemma rx_search_plus_cls:
  "rx_search (plus_rx (Cls P)) pre (x # xs) =
     (if P x then Some (pre, x # takeWhile P xs, dropWhile P xs, Map.empty)
      else rx_search (plus_rx (Cls P)) (pre @ [x]) xs)"
proof (cases "P x")
  case True
  obtain others where o:
    "rx_run (Star (Cls P)) xs Map.empty = (dropWhile P xs, Map.empty) # others"
    using rx_run_star_cls_hd by blast
  have "take (Suc (length xs) - length (dropWhile P xs)) (x # xs) = x # takeWhile P xs"
  proof -
    have "length xs = length (takeWhile P xs) + length (dropWhile P xs)"
      by (metis length_append takeWhile_dropWhile_id)
    then have "Suc (length xs) - length (dropWhile P xs) = Suc (length (takeWhile P xs))"
      by simp
    moreover have "take (length (takeWhile P xs)) xs = takeWhile P xs"
      by (metis append_eq_conv_conj takeWhile_dropWhile_id)
    ultimately show ?thesis by simp
  qed
  with True o show ?thesis
    by (subst rx_search.simps) (simp add: plus_rx_def)
next
  case False
  then show ?thesis by (subst rx_search.simps) (simp add: plus_rx_def)
qed

lemma rx_search_prefix:
  "rx_search r pre s
     = map_option (\<lambda>(p, m, rest, c). (pre @ p, m, rest, c)) (rx_search r [] s)"
proof (induction s arbitrary: pre)
  case Nil
  show ?case by (simp add: rx_search.simps[of r _ "[]"] split: list.splits)
next
  case (Cons x xs)
  show ?case
  proof (cases "rx_run r (x # xs) Map.empty")
    case Nil
    have "rx_search r pre (x # xs) = rx_search r (pre @ [x]) xs"
      using Nil by (subst rx_search.simps) simp
    moreover have "rx_search r [] (x # xs) = rx_search r [x] xs"
      using Nil by (subst rx_search.simps) simp
    ultimately show ?thesis
      using Cons[of "pre @ [x]"] Cons[of "[x]"]
      by (simp add: option.map_comp comp_def case_prod_beta)
  next
    case (Cons a list)
    then show ?thesis
      by (simp add: rx_search.simps[of r _ "x # xs"] split: prod.splits)
  qed
qed

lemma replace_all_skip:
  assumes "\<not> P x"
  shows "replace_all (plus_rx (Cls P)) rep (x # xs)
     = x # replace_all (plus_rx (Cls P)) rep xs"
proof -
  let ?r = "plus_rx (Cls P)"
  have s: "rx_search ?r [] (x # xs)
      = map_option (\<lambda>(p, m, rest, c). (x # p, m, rest, c)) (rx_search ?r [] xs)"
    using assms rx_search_prefix[of ?r "[x]" xs] by (simp add: rx_search_plus_cls)
  show ?thesis
    by (subst replace_all.simps, subst (2) replace_all.simps)
       (simp add: s split: option.splits)
qed

lemma replace_all_run:
  assumes "P x"
  shows "replace_all (plus_rx (Cls P)) rep (x # xs)
     = rep @ replace_all (plus_rx (Cls P)) rep (dropWhile P xs)"
  using assms by (subst replace_all.simps) (simp add: rx_search_plus_cls)

text \<open>The matches of \<open>P+\<close> with the flag \<^verbatim>\<open>g\<close> are the maximal runs of the class.\<close>

lemma match_all_skip:
  assumes "\<not> P x"
  shows "match_all (plus_rx (Cls P)) (x # xs) = match_all (plus_rx (Cls P)) xs"
proof -
  let ?r = "plus_rx (Cls P)"
  have s: "rx_search ?r [] (x # xs)
      = map_option (\<lambda>(p, m, rest, c). (x # p, m, rest, c)) (rx_search ?r [] xs)"
    using assms rx_search_prefix[of ?r "[x]" xs] by (simp add: rx_search_plus_cls)
  show ?thesis
    by (subst match_all.simps, subst (2) match_all.simps)
       (simp add: s split: option.splits)
qed

lemma match_all_run:
  assumes "P x"
  shows "match_all (plus_rx (Cls P)) (x # xs)
     = (x # takeWhile P xs) # match_all (plus_rx (Cls P)) (dropWhile P xs)"
  using assms by (subst match_all.simps) (simp add: rx_search_plus_cls)

lemma match_all_plus_cls: "match_all (plus_rx (Cls P)) s = runs_of P s"
proof (induction P s rule: runs_of.induct)
  case (1 P)
  show ?case
    by (subst match_all.simps) (simp add: rx_search.simps plus_rx_def)
next
  case (2 P c cs)
  then show ?case by (simp add: match_all_skip match_all_run)
qed

lemma runs_of_Nil_iff: "runs_of P s = [] \<longleftrightarrow> \<not> list_ex P s"
  by (induction P s rule: runs_of.induct) simp_all

section \<open>Properties of the fallback rule engine\<close>

subsection \<open>The engine never raises\<close>

lemma sets_group_rx_open_site: "sets_group 1 rx_open_site"
  by (simp add: rx_open_site_def)

lemma sets_group_rx_remind: "sets_group 1 rx_remind"
  by (simp add: rx_remind_def)

lemma sets_group_rx_calc: "sets_group 1 rx_calc"
  by (simp add: rx_calc_def)

lemma open_website_handler_total: "\<exists>r. open_website_handler rt text = Inr r"
proof (cases "rx_search rx_open_site [] text")
  case None
  then show ?thesis by (simp add: open_website_handler_def)
next
  case (Some a)
  obtain pre m rest c where a: "a = (pre, m, rest, c)" by (cases a)
  from rx_search_sets_group[OF Some[unfolded a] sets_group_rx_open_site]
  obtain g where "c 1 = Some g" by blast
  with Some a show ?thesis by (simp add: open_website_handler_def group_def)
qed

lemma reminder_handler_total: "\<exists>r. reminder_handler rt text = Inr r"
proof (cases "rx_search rx_remind [] text")
  case None
  then show ?thesis by (simp add: reminder_handler_def Let_def)
next
  case (Some a)
  obtain pre m rest c where a: "a = (pre, m, rest, c)" by (cases a)
  from rx_search_sets_group[OF Some[unfolded a] sets_group_rx_remind]
  obtain g where "c 1 = Some g" by blast
  with Some a show ?thesis by (simp add: reminder_handler_def group_def Let_def)
qed

lemma calc_expression_total: "\<exists>e. calc_expression text = Inr e"
proof (cases "rx_search rx_calc [] text")
  case None
  then show ?thesis by (simp add: calc_expression_def)
next
  case (Some a)
  obtain pre m rest c where a: "a = (pre, m, rest, c)" by (cases a)
  from rx_search_sets_group[OF Some[unfolded a] sets_group_rx_calc]
  obtain g where "c 1 = Some g" by blast
  with Some a show ?thesis by (simp add: calc_expression_def group_def)
qed

lemma calculation_handler_total: "\<exists>r. calculation_handler rt text = Inr r"
  by (cases "calc_try rt text") (simp_all add: calculation_handler_def)

lemma handlers_total:
  assumes "p \<in> set patterns" and "handler p = Some h"
  shows "\<exists>r. h rt text = Inr r"
proof -
  from assms have "h \<in> {time_handler, date_handler, search_handler, open_website_handler,
      reminder_handler, calculation_handler, joke_handler}"
    by (auto simp: patterns_def)
  then show ?thesis
    using open_website_handler_total[of rt "text"] reminder_handler_total[of rt "text"]
      calculation_handler_total[of rt "text"]
    by (auto simp: time_handler_def date_handler_def search_handler_def joke_handler_def
        Let_def)
qed

lemma matched_result_fields:
  assumes "p \<in> set patterns"
  shows "\<exists>r. matched_result rt text p = Inr r \<and> intent r = JStr (name p)
           \<and> confidence r = JNum (p_confidence p) \<and> model r = JStr fallback_model"
proof (cases "handler p")
  case None
  then show ?thesis by (simp add: matched_result_def Let_def)
next
  case (Some h)
  from handlers_total[OF assms Some] obtain hr where "h rt text = Inr hr" by blast
  with Some show ?thesis by (simp add: matched_result_def Let_def)
qed

subsection \<open>The match loop finds the first pattern with a keyword in the text\<close>

lemma keyword_match_iff: "keyword_match lt ks \<longleftrightarrow> (\<exists>k\<in>set ks. includes_js lt k)"
  by (induction ks) auto

lemma first_match_Some:
  "first_match lt ps = Some p \<Longrightarrow> p \<in> set ps \<and> keyword_match lt (p_keywords p)"
  by (induction ps) (auto split: if_splits)

lemma first_match_split:
  assumes "ps = pre @ p # post"
    and "\<forall>q\<in>set pre. \<not> keyword_match lt (p_keywords q)"
    and "keyword_match lt (p_keywords p)"
  shows "first_match lt ps = Some p"
  using assms by (induction pre arbitrary: ps) auto

lemma pattern_hits_iff: "pattern_hits lt p \<longleftrightarrow> keyword_match lt (p_keywords p)"
  by (simp add: pattern_hits_def keyword_match_iff includes_js_iff)

text \<open>
  Claim C4. The fallback engine scans the pattern table in the order of its declaration: when
  \<open>p\<close> is the first pattern of the table with a keyword that is a substring of the
  lower-cased, trimmed input (no pattern before it in the table is hit), the engine returns a
  result whose intent is the name of \<open>p\<close> and whose confidence is the confidence declared
  for \<open>p\<close>.
\<close>

theorem fallback_first_pattern_wins:
  assumes "lowerText = trim (toLowerCase text)"
    and "patterns = before @ p # after"
    and "\<forall>q\<in>set before. \<not> pattern_hits lowerText q"
    and "pattern_hits lowerText p"
  shows "\<exists>r. fallbackIntentRecognition rt text = Inr r
           \<and> intent r = JStr (name p) \<and> confidence r = JNum (p_confidence p)"
proof -
  from assms(2-4) have "first_match lowerText patterns = Some p"
    by (intro first_match_split[of _ before p "after"]) (auto simp: pattern_hits_iff)
  moreover have "p \<in> set patterns" unfolding assms(2) by simp
  from matched_result_fields[OF this, of rt "text"]
  obtain r where "matched_result rt text p = Inr r" "intent r = JStr (name p)"
    "confidence r = JNum (p_confidence p)" by blast
  ultimately show ?thesis
    using assms(1) by (simp add: fallbackIntentRecognition_def Let_def)
qed

lemma lower_tell_me_a_joke: "trim (toLowerCase ''tell me a joke'') = ''tell me a joke''"
  by code_simp

text \<open>
  The input \<^verbatim>\<open>tell me a joke\<close> hits none of the eleven patterns before \<^verbatim>\<open>joke\<close>, so its
  intent is \<^verbatim>\<open>joke\<close> with confidence 0.80.
\<close>

theorem fallback_first_pattern_wins_witness:
  "''tell me a joke'' = trim (toLowerCase ''tell me a joke'')
   \<and> patterns = take 11 patterns @ patterns ! 11 # []
   \<and> list_all (\<lambda>q. \<not> pattern_hits ''tell me a joke'' q) (take 11 patterns)
   \<and> pattern_hits ''tell me a joke'' (patterns ! 11)
   \<and> (\<forall>rt. \<exists>r. fallbackIntentRecognition rt ''tell me a joke'' = Inr r
          \<and> intent r = JStr ''joke'' \<and> confidence r = JNum 0.80)"
proof -
  have split: "patterns = take 11 patterns @ patterns ! 11 # []"
    by (simp add: patterns_def)
  have none: "\<forall>q\<in>set (take 11 patterns). \<not> pattern_hits ''tell me a joke'' q"
    by (simp add: patterns_def pattern_hits_iff)
  have hit: "pattern_hits ''tell me a joke'' (patterns ! 11)"
    by (simp add: patterns_def pattern_hits_iff)
  have last: "name (patterns ! 11) = ''joke''" "p_confidence (patterns ! 11) = 0.80"
    by (simp_all add: patterns_def)
  have "\<exists>r. fallbackIntentRecognition rt ''tell me a joke'' = Inr r
          \<and> intent r = JStr ''joke'' \<and> confidence r = JNum 0.80" for rt
    using fallback_first_pattern_wins[OF lower_tell_me_a_joke[symmetric] split none hit, of rt]
    by (simp only: last)
  with split none hit lower_tell_me_a_joke show ?thesis
    by (simp only: list_all_iff) simp
qed

subsection \<open>The intents of the fallback engine\<close>

lemma pattern_names: "p \<in> set patterns \<Longrightarrow> name p \<in> set fallback_intents"
  by (auto simp: patterns_def fallback_intents_def)

lemma lower_hello: "trim (toLowerCase ''hello'') = ''hello''"
  by code_simp

lemma fallback_hello_intent:
  "\<exists>r. fallbackIntentRecognition rt ''hello'' = Inr r \<and> intent r = JStr ''greeting''"
proof -
  have "first_match ''hello'' patterns = Some (patterns ! 0)"
    by (simp add: patterns_def)
  then show ?thesis
    by (simp add: fallbackIntentRecognition_def Let_def lower_hello matched_result_def
        patterns_def)
qed

text \<open>
  Claim C2, as stated, fails: for the input \<^verbatim>\<open>hello\<close> the fallback engine returns the intent
  \<^verbatim>\<open>greeting\<close>, which is not in the closed set.
\<close>

theorem fallback_intent_closed_counterexample:
  "\<not> (\<forall>rt text r. fallbackIntentRecognition rt text = Inr r
         \<longrightarrow> intent r \<in> JStr ` set closed_intents)"
proof
  assume all: "\<forall>rt text r. fallbackIntentRecognition rt text = Inr r
      \<longrightarrow> intent r \<in> JStr ` set closed_intents"
  obtain r where "fallbackIntentRecognition undefined ''hello'' = Inr r"
    "intent r = JStr ''greeting''"
    using fallback_hello_intent by blast
  with all have "JStr ''greeting'' \<in> JStr ` set closed_intents" by metis
  then show False by (simp add: closed_intents_def image_iff)
qed

text \<open>
  Claim C2, amended. For every input text the fallback engine returns a result, and its intent
  is the key of one of the twelve patterns of its table (\<^verbatim>\<open>greeting\<close>, \<^verbatim>\<open>farewell\<close>,
  \<^verbatim>\<open>thanks\<close>, \<^verbatim>\<open>help\<close>, \<^verbatim>\<open>time\<close>, \<^verbatim>\<open>date\<close>, \<^verbatim>\<open>weather\<close>, \<^verbatim>\<open>search\<close>,
  \<^verbatim>\<open>open_website\<close>, \<^verbatim>\<open>reminder\<close>, \<^verbatim>\<open>calculation\<close>, \<^verbatim>\<open>joke\<close>) or \<^verbatim>\<open>unknown\<close>.
\<close>

theorem fallback_intent_in_table:
  "\<exists>r. fallbackIntentRecognition rt text = Inr r \<and> intent r \<in> JStr ` set fallback_intents"
proof (cases "first_match (trim (toLowerCase text)) patterns")
  case None
  then show ?thesis
    by (simp add: fallbackIntentRecognition_def Let_def unknown_result_def fallback_intents_def)
next
  case (Some p)
  from first_match_Some[OF Some] have p: "p \<in> set patterns" by simp
  from matched_result_fields[OF p, of rt "text"]
  obtain r where "matched_result rt text p = Inr r" "intent r = JStr (name p)" by blast
  with Some pattern_names[OF p] show ?thesis
    by (simp add: fallbackIntentRecognition_def Let_def)
qed

theorem fallback_intent_in_table_witness:
  "\<forall>rt. \<exists>r. fallbackIntentRecognition rt ''hello'' = Inr r
     \<and> intent r = JStr ''greeting'' \<and> JStr ''greeting'' \<in> JStr ` set fallback_intents"
proof
  fix rt
  from fallback_intent_in_table[of rt "''hello''"] fallback_hello_intent[of rt]
  show "\<exists>r. fallbackIntentRecognition rt ''hello'' = Inr r
     \<and> intent r = JStr ''greeting'' \<and> JStr ''greeting'' \<in> JStr ` set fallback_intents"
    by auto
qed

subsection \<open>The calculation example\<close>

lemma lower_what_is: "trim (toLowerCase ''what is 5 plus 3'') = ''what is 5 plus 3''"
  by code_simp

lemma calc_expression_example: "calc_expression ''what is 5 plus 3'' = Inr ''5 + 3''"
  by code_simp

lemma extract_example:
  "extractEntities rt ''what is 5 plus 3'' = [(''numbers'', JArr [JNum 5, JNum 3])]"
  by code_simp

lemma safe_example: "safe_test ''5 + 3''"
  by code_simp

lemma to_string_eight: "to_string rt (JNum 8) = ''8''"
  by code_simp

text \<open>
  Claim C5. For the input \<^verbatim>\<open>what is 5 plus 3\<close> the fallback engine fires the pattern
  \<^verbatim>\<open>calculation\<close>: with an \<^verbatim>\<open>eval\<close> that gives 8 for \<^verbatim>\<open>5 + 3\<close>, the message is
  \<^verbatim>\<open>The answer is 8.\<close> and the entities are the expression \<^verbatim>\<open>5 + 3\<close>, the result 8 and
  the action \<^verbatim>\<open>calculate\<close> (and the numbers 5 and 3 from the entity extractor).
\<close>

theorem calculation_example:
  assumes "js_eval rt ''5 + 3'' = Inr (JNum 8)"
  shows "fallbackIntentRecognition rt ''what is 5 plus 3'' =
     Inr \<lparr>intent = JStr ''calculation'',
          entities = JObj [(''expression'', JStr ''5 + 3''), (''result'', JNum 8),
                           (''action'', JStr ''calculate''),
                           (''numbers'', JArr [JNum 5, JNum 3])],
          message = JStr ''The answer is 8.'',
          confidence = JNum 0.85,
          model = JStr ''fallback-rule-based''\<rparr>"
proof -
  have fm: "first_match ''what is 5 plus 3'' patterns = Some (patterns ! 10)"
    by (simp add: patterns_def)
  have h: "handler (patterns ! 10) = Some calculation_handler"
    "name (patterns ! 10) = ''calculation''" "p_confidence (patterns ! 10) = 0.85"
    "p_entities (patterns ! 10) = None"
    by (simp_all add: patterns_def)
  have ch: "calculation_handler rt ''what is 5 plus 3'' =
      Inr \<lparr>h_message = JStr ''The answer is 8.'',
           h_entities = [(''expression'', JStr ''5 + 3''), (''result'', JNum 8),
                         (''action'', JStr ''calculate'')]\<rparr>"
    by (simp add: calculation_handler_def calc_try_def calc_expression_example safe_example
        assms to_string_eight del: to_string.simps)
  show ?thesis
    by (simp add: fallbackIntentRecognition_def Let_def lower_what_is fm matched_result_def h ch
        extract_example spread_def fallback_model_def)
qed

theorem calculation_example_witness:
  "js_eval sample_runtime ''5 + 3'' = Inr (JNum 8)
   \<and> fallbackIntentRecognition sample_runtime ''what is 5 plus 3'' =
       Inr \<lparr>intent = JStr ''calculation'',
            entities = JObj [(''expression'', JStr ''5 + 3''), (''result'', JNum 8),
                             (''action'', JStr ''calculate''),
                             (''numbers'', JArr [JNum 5, JNum 3])],
            message = JStr ''The answer is 8.'',
            confidence = JNum 0.85,
            model = JStr ''fallback-rule-based''\<rparr>"
proof -
  have ev: "js_eval sample_runtime ''5 + 3'' = Inr (JNum 8)"
    by (simp add: sample_runtime_def)
  from ev calculation_example[OF ev] show ?thesis by (rule conjI)
qed

subsection \<open>The calculation handler evaluates safe text only, and never raises\<close>

lemma calc_rewrite_safe: "list_all safe_char (calc_rewrite expression)"
proof -
  have "set (calc_rewrite expression) \<subseteq> {c. safe_char c}"
    using set_trim by (fastforce simp: calc_rewrite_def Let_def rx_unsafe_def replace_all_Cls)
  then show ?thesis by (auto simp: list_all_iff)
qed

lemma to_string_js_eval_update [simp]: "to_string (rt\<lparr>js_eval := ev\<rparr>) v = to_string rt v"
  by (cases v) simp_all

text \<open>
  Claim C9. The expression that the calculation handler tests has no character outside the
  class \<^verbatim>\<open>[0-9+\-*/().\s]\<close>; \<^verbatim>\<open>eval\<close> is applied to text that passes the test only, so the
  handler's result stays the same when \<^verbatim>\<open>eval\<close> is replaced by a function that agrees with
  it on the texts that pass the test. The handler returns a result for every input; when
  \<^verbatim>\<open>eval\<close> raises, the result is the apology with no entities.
\<close>

theorem calculation_handler_safe_total:
  "(\<exists>e. calc_expression text = Inr e \<and> list_all safe_char e)
   \<and> (\<forall>ev. (\<forall>s. safe_test s \<longrightarrow> ev s = js_eval rt s)
          \<longrightarrow> calculation_handler (rt\<lparr>js_eval := ev\<rparr>) text = calculation_handler rt text)
   \<and> (\<exists>r. calculation_handler rt text = Inr r)
   \<and> (\<forall>e x. calc_expression text = Inr e \<and> safe_test e \<and> js_eval rt e = Inl x
          \<longrightarrow> calculation_handler rt text = Inr calc_apology)"
proof (intro conjI allI impI)
  from calc_expression_total obtain e where e: "calc_expression text = Inr e" by blast
  then have "list_all safe_char e"
    by (auto simp: calc_expression_def calc_rewrite_safe split: option.splits jsval.splits)
  with e show "\<exists>e. calc_expression text = Inr e \<and> list_all safe_char e" by blast
next
  fix ev assume agree: "\<forall>s. safe_test s \<longrightarrow> ev s = js_eval rt s"
  show "calculation_handler (rt\<lparr>js_eval := ev\<rparr>) text = calculation_handler rt text"
  proof (cases "calc_expression text")
    case (Inl a)
    then show ?thesis by (simp add: calculation_handler_def calc_try_def)
  next
    case (Inr e)
    show ?thesis
    proof (cases "safe_test e")
      case True
      with agree have "ev e = js_eval rt e" by simp
      with Inr True show ?thesis
        by (simp add: calculation_handler_def calc_try_def del: to_string.simps
            split: sum.splits)
    next
      case False
      with Inr show ?thesis by (simp add: calculation_handler_def calc_try_def)
    qed
  qed
next
  show "\<exists>r. calculation_handler rt text = Inr r" by (rule calculation_handler_total)
next
  fix e x assume "calc_expression text = Inr e \<and> safe_test e \<and> js_eval rt e = Inl x"
  then show "calculation_handler rt text = Inr calc_apology"
    by (simp add: calculation_handler_def calc_try_def calc_apology_def)
qed

lemma calc_expression_two_plus: "calc_expression ''what is 2 plus'' = Inr ''2 +''"
  by code_simp

lemma safe_two_plus: "safe_test ''2 +''"
  by code_simp

text \<open>
  An \<^verbatim>\<open>eval\<close> that differs from the sample one on text that fails the test gives the same
  answer for \<^verbatim>\<open>what is 5 plus 3\<close>; for \<^verbatim>\<open>what is 2 plus\<close> the sample \<^verbatim>\<open>eval\<close> raises on
  the expression \<^verbatim>\<open>2 +\<close> and the handler apologises.
\<close>

theorem calculation_handler_safe_total_witness:
  "calculation_handler
      (sample_runtime\<lparr>js_eval :=
         (\<lambda>s. if safe_test s then js_eval sample_runtime s else Inr (JStr ''unsafe''))\<rparr>)
      ''what is 5 plus 3''
     = calculation_handler sample_runtime ''what is 5 plus 3''
   \<and> calc_expression ''what is 2 plus'' = Inr ''2 +'' \<and> safe_test ''2 +''
   \<and> js_eval sample_runtime ''2 +'' = Inl SyntaxError
   \<and> calculation_handler sample_runtime ''what is 2 plus'' = Inr calc_apology"
proof -
  let ?ev = "\<lambda>s. if safe_test s then js_eval sample_runtime s else Inr (JStr ''unsafe'')"
  have agree: "\<forall>s. safe_test s \<longrightarrow> ?ev s = js_eval sample_runtime s" by simp
  have raises: "js_eval sample_runtime ''2 +'' = Inl SyntaxError"
    by (simp add: sample_runtime_def)
  note first = calculation_handler_safe_total[of "''what is 5 plus 3''" sample_runtime]
  note second = calculation_handler_safe_total[of "''what is 2 plus''" sample_runtime]
  from first[THEN conjunct2, THEN conjunct1, THEN spec, of ?ev, THEN mp, OF agree]
  have "calculation_handler (sample_runtime\<lparr>js_eval := ?ev\<rparr>) ''what is 5 plus 3''
      = calculation_handler sample_runtime ''what is 5 plus 3''" .
  moreover
  from second[THEN conjunct2, THEN conjunct2, THEN conjunct2, THEN spec, THEN spec,
      of "''2 +''" SyntaxError] calc_expression_two_plus safe_two_plus raises
  have "calculation_handler sample_runtime ''what is 2 plus'' = Inr calc_apology" by simp
  ultimately show ?thesis
    using calc_expression_two_plus safe_two_plus raises by simp
qed

section \<open>Properties of the entity extractor\<close>

text \<open>
  The leftmost match is a part of the text: the pattern matches where it starts, and at no
  position before.
\<close>

lemma leftmost_is_first:
  assumes "leftmost r s = Some m"
  shows "\<exists>pre rest. s = pre @ m @ rest
           \<and> rx_run r (m @ rest) Map.empty \<noteq> []
           \<and> (\<forall>i < length pre. rx_run r (drop i s) Map.empty = [])"
proof -
  from assms obtain pre rest c where found: "rx_search r [] s = Some (pre, m, rest, c)"
    by (auto simp: leftmost_def split: option.splits)
  from rx_search_split[OF found] have s: "s = pre @ m @ rest" by simp
  from rx_search_first[OF found] obtain t where t: "(rest, c) \<in> set (rx_run r t Map.empty)"
    and "pre @ t = s" by auto
  with s have "t = m @ rest" by simp
  with t have "rx_run r (m @ rest) Map.empty \<noteq> []" by auto
  moreover from rx_search_leftmost[OF found]
  have "\<forall>i < length pre. rx_run r (drop i s) Map.empty = []" by simp
  ultimately show ?thesis using s by blast
qed

lemma leftmost_nonempty: "leftmost r s = Some m \<Longrightarrow> \<not> nullable r \<Longrightarrow> m \<noteq> []"
  by (auto simp: leftmost_def split: option.splits dest: rx_search_nonempty)

lemma match_all_case:
  "(case match_all r s of [] \<Rightarrow> a | m # ms \<Rightarrow> f m)
     = (case leftmost r s of None \<Rightarrow> a | Some m \<Rightarrow> f m)"
  by (subst match_all.simps) (simp add: leftmost_def split: option.splits list.splits)

lemma first_date_datePatterns:
  "first_date datePatterns text =
     (case leftmost rx_date_slash text of Some m \<Rightarrow> Some m | None \<Rightarrow> leftmost rx_date_iso text)"
proof -
  have one: "first_date (p # ps) text
      = (case leftmost p text of None \<Rightarrow> first_date ps text | Some m \<Rightarrow> Some m)" for p ps
    by (simp add: match_all_case)
  show ?thesis
    by (simp only: datePatterns_def one first_date.simps(1)) (simp split: option.splits)
qed

lemma not_nullable_patterns:
  "\<not> nullable rx_time" "\<not> nullable rx_url" "\<not> nullable rx_email"
  "\<not> nullable rx_date_slash" "\<not> nullable rx_date_iso"
  by (simp_all add: rx_time_def rx_url_def rx_email_def rx_date_slash_def rx_date_iso_def
      rep_range_def plus_rx_def digit_def chr_def eval_nat_numeral)

lemma extractEntities_parts:
  "extractEntities rt text =
     numbers_part rt text
     @ string_part ''time'' (leftmost rx_time text)
     @ string_part ''url'' (leftmost rx_url text)
     @ string_part ''email'' (leftmost rx_email text)
     @ string_part ''date'' (first_date datePatterns text)"
  by (simp add: extractEntities_def Let_def match_all_case numbers_part_def string_part_def
      split: option.splits)

lemma map_of_string_part:
  "map_of (string_part k found) k' = (if k' = k then map_option JStr found else None)"
  by (simp add: string_part_def split: option.splits)

lemma map_of_numbers_part:
  "k \<noteq> ''numbers'' \<Longrightarrow> map_of (numbers_part rt text) k = None"
  by (simp add: numbers_part_def)

lemma keys_string_part: "map fst (string_part k found) = (if found = None then [] else [k])"
  by (simp add: string_part_def split: option.splits)

lemma keys_numbers_part:
  "map fst (numbers_part rt text) = (if match_all rx_numbers text = [] then [] else [''numbers''])"
  by (simp add: numbers_part_def)

text \<open>The numbers are the maximal runs of digits, read by \<^verbatim>\<open>parseInt\<close>.\<close>

lemma match_all_numbers: "match_all rx_numbers text = runs_of is_digit text"
  by (simp add: rx_numbers_def digit_def match_all_plus_cls)

lemma map_of_numbers:
  "map_of (extractEntities rt text) ''numbers''
     = (if list_ex is_digit text
        then Some (JArr (map (parseInt rt) (runs_of is_digit text))) else None)"
  by (simp add: extractEntities_parts map_add_def map_of_string_part numbers_part_def
      match_all_numbers runs_of_Nil_iff split: option.splits)

lemma first_date_nonempty: "first_date datePatterns text = Some m \<Longrightarrow> m \<noteq> []"
  by (auto simp: first_date_datePatterns split: option.splits
      dest: leftmost_nonempty[OF _ not_nullable_patterns(4)]
            leftmost_nonempty[OF _ not_nullable_patterns(5)])

lemma parseInt_frame:
  "parseInt (rt\<lparr>now_time := t, now_date := d, random := x, js_eval := ev, json_parse := jp\<rparr>)
     = parseInt rt"
  by (rule ext) (simp add: parseInt_def Let_def cong: if_cong)

text \<open>
  Claim C7. \<^verbatim>\<open>extractEntities\<close> is a function of its text: it returns an object for every
  text, and the object does not change with the clock, the random value, \<^verbatim>\<open>eval\<close> or
  \<^verbatim>\<open>JSON.parse\<close>. The object has each key at most once, among \<^verbatim>\<open>numbers\<close>, \<^verbatim>\<open>time\<close>,
  \<^verbatim>\<open>url\<close>, \<^verbatim>\<open>email\<close> and \<^verbatim>\<open>date\<close>. The numbers are there exactly when the text has
  a digit, and are the maximal runs of digits from left to right, read by \<^verbatim>\<open>parseInt\<close>.
  The time, the URL and the e-mail address are the leftmost match of their pattern in the
  text; the date is the leftmost match of the pattern MM/DD/YYYY when that pattern matches
  somewhere, and else the leftmost match of the pattern YYYY-MM-DD. A key whose pattern has no
  match is absent: the object has a key exactly when its pattern matches, it holds no empty
  string and no empty array, and for a text where no pattern matches it is the empty object.
\<close>

theorem extractEntities_contract:
  "distinct (map fst (extractEntities rt text))
   \<and> set (map fst (extractEntities rt text))
        \<subseteq> {''numbers'', ''time'', ''url'', ''email'', ''date''}
   \<and> map_of (extractEntities rt text) ''numbers''
        = (if list_ex is_digit text
           then Some (JArr (map (parseInt rt) (runs_of is_digit text))) else None)
   \<and> map_of (extractEntities rt text) ''time'' = map_option JStr (leftmost rx_time text)
   \<and> map_of (extractEntities rt text) ''url'' = map_option JStr (leftmost rx_url text)
   \<and> map_of (extractEntities rt text) ''email'' = map_option JStr (leftmost rx_email text)
   \<and> map_of (extractEntities rt text) ''date''
        = map_option JStr (case leftmost rx_date_slash text of
                             Some m \<Rightarrow> Some m
                           | None \<Rightarrow> leftmost rx_date_iso text)
   \<and> (\<forall>k. map_of (extractEntities rt text) k \<noteq> Some (JStr [])
          \<and> map_of (extractEntities rt text) k \<noteq> Some (JArr []))
   \<and> (extractEntities rt text = []
        \<longleftrightarrow> \<not> list_ex is_digit text \<and> leftmost rx_time text = None
            \<and> leftmost rx_url text = None \<and> leftmost rx_email text = None
            \<and> leftmost rx_date_slash text = None \<and> leftmost rx_date_iso text = None)
   \<and> extractEntities
        (rt\<lparr>now_time := t, now_date := d, random := x, js_eval := ev, json_parse := jp\<rparr>) text
        = extractEntities rt text"
proof (intro conjI)
  show "distinct (map fst (extractEntities rt text))"
    by (simp add: extractEntities_parts keys_string_part keys_numbers_part)
  show "set (map fst (extractEntities rt text))
      \<subseteq> {''numbers'', ''time'', ''url'', ''email'', ''date''}"
    by (simp add: extractEntities_parts keys_string_part keys_numbers_part)
  show "map_of (extractEntities rt text) ''numbers''
      = (if list_ex is_digit text
         then Some (JArr (map (parseInt rt) (runs_of is_digit text))) else None)"
    by (rule map_of_numbers)
  show "map_of (extractEntities rt text) ''time'' = map_option JStr (leftmost rx_time text)"
    by (simp add: extractEntities_parts map_add_def map_of_string_part map_of_numbers_part
        split: option.splits)
  show "map_of (extractEntities rt text) ''url'' = map_option JStr (leftmost rx_url text)"
    by (simp add: extractEntities_parts map_add_def map_of_string_part map_of_numbers_part
        split: option.splits)
  show "map_of (extractEntities rt text) ''email'' = map_option JStr (leftmost rx_email text)"
    by (simp add: extractEntities_parts map_add_def map_of_string_part map_of_numbers_part
        split: option.splits)
  show "map_of (extractEntities rt text) ''date''
      = map_option JStr (case leftmost rx_date_slash text of
                           Some m \<Rightarrow> Some m
                         | None \<Rightarrow> leftmost rx_date_iso text)"
    by (simp add: extractEntities_parts map_add_def map_of_string_part map_of_numbers_part
        first_date_datePatterns split: option.splits)
  show "\<forall>k. map_of (extractEntities rt text) k \<noteq> Some (JStr [])
      \<and> map_of (extractEntities rt text) k \<noteq> Some (JArr [])"
  proof (intro allI conjI)
    fix k
    show "map_of (extractEntities rt text) k \<noteq> Some (JStr [])"
    proof
      assume "map_of (extractEntities rt text) k = Some (JStr [])"
      then have "(k, JStr []) \<in> set (extractEntities rt text)" by (rule map_of_SomeD)
      then consider "leftmost rx_time text = Some []" | "leftmost rx_url text = Some []"
        | "leftmost rx_email text = Some []" | "first_date datePatterns text = Some []"
        by (auto simp: extractEntities_parts numbers_part_def string_part_def
            split: option.splits if_splits)
      then show False
        using not_nullable_patterns first_date_nonempty
        by cases (auto dest: leftmost_nonempty)
    qed
    show "map_of (extractEntities rt text) k \<noteq> Some (JArr [])"
    proof
      assume "map_of (extractEntities rt text) k = Some (JArr [])"
      then have "(k, JArr []) \<in> set (extractEntities rt text)" by (rule map_of_SomeD)
      then show False
        by (auto simp: extractEntities_parts numbers_part_def string_part_def
            split: option.splits if_splits)
    qed
  qed
  show "extractEntities rt text = []
      \<longleftrightarrow> \<not> list_ex is_digit text \<and> leftmost rx_time text = None
          \<and> leftmost rx_url text = None \<and> leftmost rx_email text = None
          \<and> leftmost rx_date_slash text = None \<and> leftmost rx_date_iso text = None"
    by (auto simp: extractEntities_parts numbers_part_def string_part_def match_all_numbers
        runs_of_Nil_iff first_date_datePatterns split: option.splits)
  show "extractEntities
      (rt\<lparr>now_time := t, now_date := d, random := x, js_eval := ev, json_parse := jp\<rparr>) text
      = extractEntities rt text"
    by (simp only: extractEntities_def parseInt_frame)
qed

lemma sample_text_matches:
  "leftmost rx_time sample_text = Some ''5:30 pm''"
  "leftmost rx_url sample_text = Some ''https://a.b/c''"
  "leftmost rx_email sample_text = Some ''bob@x.org''"
  "leftmost rx_date_slash sample_text = Some ''1/2/24''"
  "leftmost rx_date_iso sample_text = Some ''2024-01-02''"
  by code_simp+

text \<open>
  In the sample text the date in the form YYYY-MM-DD stands before the date in the form
  MM/DD/YYYY; the extractor reports the second, and no time appears twice. A text without any
  of the shapes gives the empty object.
\<close>

lemma hello_matches:
  "\<not> list_ex is_digit ''hello''"
  "leftmost rx_time ''hello'' = None" "leftmost rx_url ''hello'' = None"
  "leftmost rx_email ''hello'' = None"
  "leftmost rx_date_slash ''hello'' = None" "leftmost rx_date_iso ''hello'' = None"
  by code_simp+

theorem extractEntities_contract_witness:
  "map_of (extractEntities sample_runtime sample_text) ''date'' = Some (JStr ''1/2/24'')
   \<and> map_of (extractEntities sample_runtime sample_text) ''time'' = Some (JStr ''5:30 pm'')
   \<and> map_of (extractEntities sample_runtime sample_text) ''url'' = Some (JStr ''https://a.b/c'')
   \<and> map_of (extractEntities sample_runtime sample_text) ''email'' = Some (JStr ''bob@x.org'')
   \<and> distinct (map fst (extractEntities sample_runtime sample_text))
   \<and> extractEntities sample_runtime ''hello'' = []
   \<and> map_of (extractEntities sample_runtime ''hello'') ''numbers'' = None"
proof -
  from extractEntities_contract[of sample_runtime sample_text]
  have sample:
    "map_of (extractEntities sample_runtime sample_text) ''date'' = Some (JStr ''1/2/24'')
     \<and> map_of (extractEntities sample_runtime sample_text) ''time'' = Some (JStr ''5:30 pm'')
     \<and> map_of (extractEntities sample_runtime sample_text) ''url'' = Some (JStr ''https://a.b/c'')
     \<and> map_of (extractEntities sample_runtime sample_text) ''email'' = Some (JStr ''bob@x.org'')
     \<and> distinct (map fst (extractEntities sample_runtime sample_text))"
    by (simp add: sample_text_matches)
  from extractEntities_contract[of sample_runtime "''hello''"]
  have hello: "extractEntities sample_runtime ''hello'' = []"
    by (simp add: hello_matches del: list_ex_Cons_iff)
  then have "map_of (extractEntities sample_runtime ''hello'') ''numbers'' = None" by simp
  with sample hello show ?thesis by simp
qed

section \<open>Properties of the intent service\<close>

lemma pattern_shape:
  "p \<in> set patterns \<Longrightarrow> name p \<noteq> [] \<and> p_confidence p \<noteq> 0"
  by (auto simp: patterns_def)

lemma matched_result_shape:
  assumes "p \<in> set patterns"
  shows "\<exists>r. matched_result rt text p = Inr r \<and> truthy (intent r) \<and> truthy (entities r)
           \<and> truthy (confidence r) \<and> model r = JStr fallback_model"
proof (cases "handler p")
  case None
  with pattern_shape[OF assms] show ?thesis by (simp add: matched_result_def Let_def)
next
  case (Some h)
  from handlers_total[OF assms Some] obtain hr where "h rt text = Inr hr" by blast
  with Some pattern_shape[OF assms] show ?thesis by (simp add: matched_result_def Let_def)
qed

text \<open>
  The fallback engine returns a result for every text; its intent, its entities and its
  confidence are truthy (a non-empty string, an object, a number that is not zero), and its
  model is the marker.
\<close>

lemma fallback_result_shape:
  "\<exists>r. fallbackIntentRecognition rt text = Inr r
      \<and> truthy (intent r) \<and> truthy (entities r) \<and> truthy (confidence r)
      \<and> model r = JStr fallback_model"
proof (cases "first_match (trim (toLowerCase text)) patterns")
  case None
  then show ?thesis
    by (simp add: fallbackIntentRecognition_def Let_def unknown_result_def)
next
  case (Some p)
  from first_match_Some[OF Some] have p: "p \<in> set patterns" by simp
  from matched_result_shape[OF p, of rt "text"] Some
  show ?thesis by (auto simp: fallbackIntentRecognition_def Let_def)
qed

lemma fallback_object_total:
  "\<exists>r. fallbackIntentRecognition rt userText = Inr r
      \<and> fallback_object rt userText = Inr (result_object r)"
  using fallback_result_shape[of rt userText] by (auto simp: fallback_object_def)




lemma callGrok_no_client: "callGrok sp None rt userText = fallback_object rt userText"
  by (cases "fallback_object rt userText") (simp_all add: callGrok_def callGrok_try_def)





lemma validate_hello: "validate_text rt sample_config (JStr ''hello'') = Inr ''hello''"
  by (simp add: validate_text_def sample_config_def exceeds_max_def Let_def trim_def
      is_space_def)


subsection \<open>The service without a client\<close>

text \<open>
  Without a client \<^verbatim>\<open>callGrok\<close> returns the object of the fallback engine, which has no
  property \<^verbatim>\<open>data\<close>; the \<^verbatim>\<open>processIntent\<close> of \<^verbatim>\<open>src/unnamed/part_002\<close> reads every field
  under \<^verbatim>\<open>result?.data\<close> and so returns its defaults for every valid text.
\<close>

lemma processIntent_unconfigured:
  assumes "validate_text rt cfg text = Inr trimmedText"
  shows "processIntent cfg sp None rt text =
     Inr \<lparr>intent = JStr ''unknown'', entities = JObj [],
          message = JStr ''Processing complete'', confidence = JNum 0.5,
          model = JStr (llm_model cfg)\<rparr>"
proof -
  from fallback_object_total[of rt trimmedText] obtain r where
    "fallback_object rt trimmedText = Inr (result_object r)" by blast
  then have "callGrok sp None rt trimmedText = Inr (result_object r)"
    by (simp add: callGrok_no_client)
  with assms show ?thesis
    by (simp add: processIntent_def processIntent_try_def Let_def result_object_def js_or_def)
qed

text \<open>
  The \<^verbatim>\<open>processIntent\<close> of \<^verbatim>\<open>src/backend/src/app.js\<close> reads the fields of the result
  itself: without a client it returns the intent, the entities and the confidence of the
  fallback engine, and the model marker.
\<close>

lemma processIntent_app_unconfigured:
  assumes "validate_text rt cfg text = Inr trimmedText"
  shows "\<exists>r fr. processIntent_app cfg sp None rt text = Inr r
           \<and> fallbackIntentRecognition rt trimmedText = Inr fr
           \<and> intent r = intent fr \<and> entities r = entities fr
           \<and> message r = js_or (message fr) (JStr ''Processing complete'')
           \<and> confidence r = confidence fr
           \<and> model r = JStr ''fallback-rule-based''"
proof -
  from fallback_result_shape[of rt trimmedText] obtain fr where
    fr: "fallbackIntentRecognition rt trimmedText = Inr fr" and
    shape: "truthy (intent fr)" "truthy (entities fr)" "truthy (confidence fr)"
      "model fr = JStr fallback_model"
    by blast
  from fr have "callGrok sp None rt trimmedText = Inr (result_object fr)"
    by (simp add: callGrok_no_client fallback_object_def)
  with assms shape have "processIntent_app cfg sp None rt text =
      Inr \<lparr>intent = intent fr, entities = entities fr,
           message = js_or (message fr) (JStr ''Processing complete''),
           confidence = confidence fr, model = JStr ''fallback-rule-based''\<rparr>"
    by (simp add: processIntent_app_def processIntent_app_try_def result_object_def js_or_def
        fallback_model_def)
  with fr show ?thesis by simp
qed

text \<open>
  Claim C1 fails on the \<^verbatim>\<open>processIntent\<close> of \<^verbatim>\<open>src/unnamed/part_002\<close>: with no client and
  the default model name \<^verbatim>\<open>grok-beta\<close>, the input \<^verbatim>\<open>hello\<close> gives the defaults of
  \<^verbatim>\<open>processIntent\<close> and the model \<^verbatim>\<open>grok-beta\<close>, not the result of the fallback engine with
  the model \<^verbatim>\<open>fallback-rule-based\<close>.
\<close>

theorem processIntent_unconfigured_hello:
  "processIntent sample_config sp None rt (JStr ''hello'') =
     Inr \<lparr>intent = JStr ''unknown'', entities = JObj [],
          message = JStr ''Processing complete'', confidence = JNum 0.5,
          model = JStr ''grok-beta''\<rparr>"
  using processIntent_unconfigured[where rt = rt and sp = sp, OF validate_hello]
  by (simp add: sample_config_def)

section \<open>Properties of the browser extension\<close>

subsection \<open>The URL of an open-site action\<close>

lemma lower_open_youtube: "trim (toLowerCase ''open youtube'') = ''open youtube''"
  by code_simp

lemma open_website_handler_youtube:
  "open_website_handler rt ''open youtube'' =
     Inr \<lparr>h_message = JStr ''Opening youtube...'',
          h_entities = [(''website'', JStr ''youtube''), (''action'', JStr ''open'')]\<rparr>"
  by code_simp

lemma extract_open_youtube: "extractEntities rt ''open youtube'' = []"
  by code_simp

text \<open>
  Without a model the input \<^verbatim>\<open>open youtube\<close> gets the intent \<^verbatim>\<open>open_website\<close> and the
  website \<^verbatim>\<open>youtube\<close> from the fallback engine.
\<close>

lemma fallback_open_youtube:
  "fallbackIntentRecognition rt ''open youtube'' =
     Inr \<lparr>intent = JStr ''open_website'',
          entities = JObj [(''website'', JStr ''youtube''), (''action'', JStr ''open'')],
          message = JStr ''Opening youtube...'',
          confidence = JNum 0.88,
          model = JStr ''fallback-rule-based''\<rparr>"
proof -
  have fm: "first_match ''open youtube'' patterns = Some (patterns ! 8)"
    by (simp add: patterns_def)
  have h: "handler (patterns ! 8) = Some open_website_handler"
    "name (patterns ! 8) = ''open_website''" "p_confidence (patterns ! 8) = 0.88"
    "p_entities (patterns ! 8) = None"
    by (simp_all add: patterns_def)
  show ?thesis
    by (simp add: fallbackIntentRecognition_def Let_def lower_open_youtube fm matched_result_def
        h open_website_handler_youtube extract_open_youtube spread_def fallback_model_def)
qed

text \<open>
  Claim C6, as stated, fails: \<^verbatim>\<open>handleOpenSite\<close> does not read \<^verbatim>\<open>entities.url\<close>, and for
  the website \<^verbatim>\<open>youtube\<close> (the entity that the fallback engine extracts from
  \<^verbatim>\<open>open youtube\<close>) its URL is \<^verbatim>\<open>https://youtube\<close>, not \<^verbatim>\<open>https://www.youtube.com\<close>.
\<close>

theorem handleOpenSite_counterexample:
  "handleOpenSite (JObj [(''url'', JStr ''https://www.youtube.com''),
                         (''website'', JStr ''youtube'')])
     = Inr (open_url ''https://youtube'')
   \<and> open_url ''https://youtube'' \<noteq> open_url ''https://www.youtube.com''
   \<and> (\<forall>rt. \<exists>r. fallbackIntentRecognition rt ''open youtube'' = Inr r
          \<and> handleOpenSite (entities r) = Inr (open_url ''https://youtube''))"
  by (simp add: handleOpenSite_def bind_def open_url_def fallback_open_youtube)

text \<open>
  Claim C6, amended. For entities whose \<^verbatim>\<open>website\<close> is a string, \<^verbatim>\<open>handleOpenSite\<close> gives
  the action \<^verbatim>\<open>OPEN_URL\<close> with the website unchanged when it starts with \<^verbatim>\<open>http\<close>, and
  with \<^verbatim>\<open>https://\<close> put before it otherwise; the URL starts with \<^verbatim>\<open>http\<close> in both cases,
  and a property \<^verbatim>\<open>url\<close> of the entities changes nothing. For the input \<^verbatim>\<open>open youtube\<close>
  with no model configured, the website of the fallback result is \<^verbatim>\<open>youtube\<close> and its URL
  is \<^verbatim>\<open>https://youtube\<close>.
\<close>

theorem handleOpenSite_resolution:
  "(get ents ''website'' = Inr (JStr w)
      \<longrightarrow> handleOpenSite ents
            = Inr (open_url (if startsWith w ''http'' then w else ''https://'' @ w))
          \<and> startsWith (if startsWith w ''http'' then w else ''https://'' @ w) ''http'')
   \<and> handleOpenSite (JObj ((''url'', u) # kvs)) = handleOpenSite (JObj kvs)
   \<and> (\<exists>r. fallbackIntentRecognition rt ''open youtube'' = Inr r
          \<and> opt_get (entities r) ''website'' = JStr ''youtube''
          \<and> handleOpenSite (entities r) = Inr (open_url ''https://youtube''))"
proof (intro conjI impI)
  assume "get ents ''website'' = Inr (JStr w)"
  then show "handleOpenSite ents
      = Inr (open_url (if startsWith w ''http'' then w else ''https://'' @ w))"
    by (simp add: handleOpenSite_def bind_def open_url_def)
next
  show "startsWith (if startsWith w ''http'' then w else ''https://'' @ w) ''http''"
    by simp
next
  show "handleOpenSite (JObj ((''url'', u) # kvs)) = handleOpenSite (JObj kvs)"
    by (simp add: handleOpenSite_def)
next
  show "\<exists>r. fallbackIntentRecognition rt ''open youtube'' = Inr r
      \<and> opt_get (entities r) ''website'' = JStr ''youtube''
      \<and> handleOpenSite (entities r) = Inr (open_url ''https://youtube'')"
    by (simp add: fallback_open_youtube handleOpenSite_def bind_def open_url_def)
qed

theorem handleOpenSite_resolution_witness:
  "get (JObj [(''website'', JStr ''youtube.com'')]) ''website'' = Inr (JStr ''youtube.com'')
   \<and> handleOpenSite (JObj [(''website'', JStr ''youtube.com'')])
       = Inr (open_url ''https://youtube.com'')
   \<and> get (JObj [(''website'', JStr ''http://a.b'')]) ''website'' = Inr (JStr ''http://a.b'')
   \<and> handleOpenSite (JObj [(''website'', JStr ''http://a.b'')]) = Inr (open_url ''http://a.b'')"
proof -
  have a: "get (JObj [(''website'', JStr ''youtube.com'')]) ''website''
      = Inr (JStr ''youtube.com'')" by simp
  have b: "get (JObj [(''website'', JStr ''http://a.b'')]) ''website'' = Inr (JStr ''http://a.b'')"
    by simp
  from handleOpenSite_resolution[of "JObj [(''website'', JStr ''youtube.com'')]"
      "''youtube.com''"] a
  have 1: "handleOpenSite (JObj [(''website'', JStr ''youtube.com'')])
      = Inr (open_url ''https://youtube.com'')" by simp
  from handleOpenSite_resolution[of "JObj [(''website'', JStr ''http://a.b'')]" "''http://a.b''"] b
  have 2: "handleOpenSite (JObj [(''website'', JStr ''http://a.b'')])
      = Inr (open_url ''http://a.b'')" by simp
  from a 1 b 2 show ?thesis by (intro conjI)
qed

text \<open>
  The dispatcher has handlers for \<^verbatim>\<open>search\<close>, \<^verbatim>\<open>website_search\<close> and \<^verbatim>\<open>open_site\<close>: the
  intents \<^verbatim>\<open>open_website\<close> of the fallback engine and \<^verbatim>\<open>navigation\<close> of the model go to
  \<^verbatim>\<open>handleDefault\<close>, and nothing is opened.
\<close>

lemma process_open_website:
  "i = ''open_website'' \<or> i = ''navigation'' \<Longrightarrow>
     process rt (JObj [(''success'', JBool True),
                       (''data'', JObj [(''intent'', JStr i), (''entities'', ents)])])
       = Inr NoEffect"
proof -
  have "toLowerCase ''open_website'' = ''open_website''" "toLowerCase ''navigation'' = ''navigation''"
    by code_simp+
  then show "i = ''open_website'' \<or> i = ''navigation'' \<Longrightarrow> ?thesis"
    by (auto simp: process_def bind_def run_handler_def handleDefault_def execute_def)
qed

subsection \<open>The summary\<close>

text \<open>
  The replacement \<^verbatim>\<open>replace(/\s+/g, ' ')\<close> collapses every run of whitespace to one space.
  So \<^verbatim>\<open>handleSummarize\<close> of \<^verbatim>\<open>src/backend/src/search.js\<close> gives the summary of the
  specification for every body text, and \<^verbatim>\<open>summarize\<close> of the content script gives the
  collapsed text cut to 5000 characters, without the trim.
\<close>

lemma replace_all_whitespace: "replace_all rx_whitespace '' '' s = collapse_ws s"
proof (induction s rule: collapse_ws.induct)
  case 1
  show ?case
    by (subst replace_all.simps)
       (simp add: rx_search.simps rx_whitespace_def plus_rx_def space_def)
next
  case (2 c cs)
  then show ?case
    by (simp add: rx_whitespace_def space_def replace_all_skip replace_all_run)
qed

lemma handleSummarize_meets_spec:
  "handleSummarize pg =
     (case body_innerText pg of
        None \<Rightarrow> Inl TypeError
      | Some innerText \<Rightarrow>
          Inr (JObj [(''success'', JBool True), (''summary'', JStr (summary_spec innerText)),
                     (''message'', JStr ''Page content extracted'')]))"
  by (simp add: handleSummarize_def summary_spec_def replace_all_whitespace Let_def
      split: option.splits)

lemma summarize_collapses:
  "summarize pg =
     (case body_innerText pg of
        None \<Rightarrow> Inl TypeError
      | Some innerText \<Rightarrow>
          Inr (JObj [(''summary'', JStr (take 5000 (collapse_ws innerText)))]))"
  by (simp add: summarize_def replace_all_whitespace Let_def split: option.splits)

text \<open>
  Claim C8 fails on \<^verbatim>\<open>summarize\<close> of the content script (\<^verbatim>\<open>src/unnamed/part_006\<close>): it
  collapses the whitespace and cuts the text, but does not trim it. For the body text of an
  \<^verbatim>\<open>a\<close> between two spaces its summary keeps both spaces, where the summary of the
  specification, and of \<^verbatim>\<open>handleSummarize\<close> of \<^verbatim>\<open>src/backend/src/search.js\<close>, is the
  trimmed \<^verbatim>\<open>a\<close>.
\<close>

theorem summarize_not_trimmed:
  "summarize \<lparr>body_innerText = Some '' a '', querySelector = q\<rparr>
     = Inr (JObj [(''summary'', JStr '' a '')])
   \<and> summary_spec '' a '' = ''a''
   \<and> handleSummarize \<lparr>body_innerText = Some '' a '', querySelector = q\<rparr>
     = Inr (JObj [(''success'', JBool True), (''summary'', JStr ''a''),
                  (''message'', JStr ''Page content extracted'')])"
proof -
  have "replace_all rx_whitespace '' '' '' a '' = '' a ''" by code_simp
  moreover have "trim '' a '' = ''a''" by code_simp
  moreover have "summary_spec '' a '' = ''a''" by code_simp
  ultimately show ?thesis
    by (simp add: summarize_def handleSummarize_def Let_def)
qed

subsection \<open>The replies of the listeners\<close>

text \<open>
  The listener of the content script (\<^verbatim>\<open>src/unnamed/part_006\<close>) sends one reply for every
  message and returns \<^verbatim>\<open>true\<close>: the result of the handler with \<^verbatim>\<open>success: true\<close>, or the
  message of the error with \<^verbatim>\<open>success: false\<close>, also for a command that it does not know.
\<close>

lemma content_listener_replies_once:
  "\<exists>reply. content_listener rt pg msg = ([reply], True)
      \<and> (\<forall>result. content_switch pg msg = Inr result \<longrightarrow> reply = success_reply result)
      \<and> (\<forall>err. content_switch pg msg = Inl err \<longrightarrow> reply = failure_reply rt err)"
  by (cases "content_switch pg msg") (simp_all add: content_listener_def)

lemma content_listener_unknown:
  assumes "get msg ''type'' = Inr ty"
    and "ty \<notin> JStr ` {''SEARCH'', ''WEBSITE_SEARCH'', ''FORM_FILL'', ''BOOK_TICKET'',
                      ''SUMMARIZE''}"
  shows "content_listener rt pg msg
     = ([JObj [(''success'', JBool False), (''error'', JStr ''Unknown command'')]], True)"
  using assms by (simp add: content_listener_def content_switch_def bind_def failure_reply_def)

text \<open>
  The listener of the router replies once and returns \<^verbatim>\<open>true\<close> for a message whose
  \<^verbatim>\<open>data.data.intent\<close> is a string.
\<close>

lemma router_listener_replies_once:
  assumes "intent_upper msg = Inr command"
  shows "\<exists>reply. router_listener rt br pg msg = Inr ([reply], True)"
  using assms
  by (cases "router_switch rt br pg msg") (simp_all add: router_listener_def bind_def)

text \<open>
  Claim C10 fails on the listener of the router (\<^verbatim>\<open>src/backend/src/search.js\<close>): for a
  message without the property \<^verbatim>\<open>data\<close>, such as the message \<^verbatim>\<open>{type, payload}\<close> that the
  router itself sends to a content script, the read of \<^verbatim>\<open>message.data.data\<close> before the
  \<^verbatim>\<open>try\<close> block raises a TypeError: the listener sends no reply and returns no value. The
  listener of the content script replies to the same message.
\<close>

theorem router_listener_no_reply:
  "router_listener rt br pg (JObj [(''type'', JStr ''SEARCH''), (''payload'', JObj [])])
     = Inl TypeError
   \<and> content_listener rt pg (JObj [(''type'', JStr ''SEARCH''), (''payload'', JObj [])])
     = ([JObj [(''success'', JBool False), (''error'', JStr (js_message rt TypeError))]], True)"
  by (simp add: router_listener_def intent_upper_def bind_def content_listener_def
      content_switch_def googleSearch_def entity_def failure_reply_def)

end
